theory Spec2Isabelle
  imports Complex_Main "HOL-Library.AList"
begin

section \<open>Values exchanged with workers\<close>

text \<open>
  Worker outputs, execution results and the entries of \<open>globals_schema\<close> are Python
  values built from JSON: \<open>None\<close>, booleans, numbers, strings, lists and dicts.  A dict
  is an association list in insertion order, because the extraction code of
  \<open>mark_done\<close> iterates \<open>dict.items()\<close> and takes the first entry that fits.
\<close>

datatype json =
    JNull
  | JBool bool
  | JInt int
  | JFloat rat
  | JStr string
  | JList "json list"
  | JDict "(string \<times> json) list"

type_synonym pydict = "(string \<times> json) list"

text \<open>Python truthiness, as used by \<open>if value\<close>, \<open>x or y\<close> and \<open>if output\<close>.\<close>

fun truthy :: "json \<Rightarrow> bool" where
  "truthy JNull = False"
| "truthy (JBool b) = b"
| "truthy (JInt i) = (i \<noteq> 0)"
| "truthy (JFloat r) = (r \<noteq> 0)"
| "truthy (JStr s) = (s \<noteq> [])"
| "truthy (JList xs) = (xs \<noteq> [])"
| "truthy (JDict kvs) = (kvs \<noteq> [])"

text \<open>\<open>isinstance(value, (str, int, float, bool, list, dict))\<close>: everything but \<open>None\<close>.\<close>

fun is_standard :: "json \<Rightarrow> bool" where
  "is_standard JNull = False"
| "is_standard _ = True"

text \<open>
  The recurring pair of branches
  \<open>if isinstance(value, (...)): globals_schema[k] = value else: globals_schema[k] = str(value)\<close>.
\<close>

definition stored_value :: "json \<Rightarrow> json" where
  "stored_value v = (if is_standard v then v else JStr ''None'')"

fun is_dict :: "json \<Rightarrow> bool" where
  "is_dict (JDict _) = True"
| "is_dict _ = False"

text \<open>The exceptions of the source, as values.\<close>

datatype error =
    KeyError string
  | ValueError string
  | AttributeError string
  | TypeError string
  | IndexError string
  | OtherError string

subsection \<open>The shared variable store\<close>

text \<open>
  \<open>globals_schema\<close> is a Python dict that the program itself fills.  The extraction of
  \<open>mark_done\<close> stores under the declared write keys, which are strings; the
  user-interaction capture stores under \<open>output.get("writes_to", ...)\<close>, which is whatever
  the worker sent: a string, \<open>None\<close>, a boolean or a number are all hashable and become
  keys.  Keys are compared as Python compares them: \<open>True == 1 == 1.0\<close>, so booleans and
  numbers are one kind of key, identified by their numeric value.
\<close>

datatype store_key = Name string | NoneKey | Number rat

type_synonym store = "(store_key \<times> json) list"

text \<open>The key a value becomes; a list or a dict is unhashable and raises \<open>TypeError\<close>.\<close>

fun key_of :: "json \<Rightarrow> error + store_key" where
  "key_of (JStr s) = Inr (Name s)"
| "key_of JNull = Inr NoneKey"
| "key_of (JBool b) = Inr (Number (if b then 1 else 0))"
| "key_of (JInt i) = Inr (Number (of_int i))"
| "key_of (JFloat r) = Inr (Number r)"
| "key_of (JList xs) = Inl (TypeError ''unhashable type: list'')"
| "key_of (JDict kvs) = Inl (TypeError ''unhashable type: dict'')"

fun is_name :: "store_key \<Rightarrow> bool" where
  "is_name (Name s) = True"
| "is_name _ = False"

section \<open>The execution graph\<close>

datatype status = Pending | Running | Completed | Failed

text \<open>
  The attribute dict of a graph node.  An attribute that the dict may lack is an option;
  a node created implicitly by \<open>add_edge\<close> has no attribute at all.  Timestamps, the
  cost and token counters and the \<open>iterations\<close> bookkeeping are left out: they are clock
  readings, floating-point sums and constants that no scheduling or extraction decision
  reads.
\<close>

record node_data =
  nd_agent :: "string option"
  nd_description :: "json option"
  nd_agent_prompt :: "json option"
  nd_reads :: "string list option"
  nd_writes :: "string list option"
  nd_status :: "status option"
  nd_output :: "json option"
  nd_error :: "string option"
  nd_final_iteration_output :: "json option"

definition no_attrs :: node_data where
  "no_attrs = \<lparr> nd_agent = None, nd_description = None, nd_agent_prompt = None,
     nd_reads = None, nd_writes = None, nd_status = None, nd_output = None,
     nd_error = None, nd_final_iteration_output = None \<rparr>"

text \<open>The attributes that the constructor gives the synthetic \<open>ROOT\<close> node.\<close>

definition root_attrs :: node_data where
  "root_attrs = no_attrs\<lparr> nd_agent := Some ''System'',
     nd_description := Some (JStr ''Initial Query''), nd_status := Some Completed,
     nd_output := Some JNull \<rparr>"

text \<open>\<open>dict.update\<close> on the attribute dict: keys of \<open>new\<close> replace those of \<open>old\<close>.\<close>

definition or_else :: "'a option \<Rightarrow> 'a option \<Rightarrow> 'a option" where
  "or_else new old = (case new of None \<Rightarrow> old | Some v \<Rightarrow> Some v)"

definition update_attrs :: "node_data \<Rightarrow> node_data \<Rightarrow> node_data" where
  "update_attrs old new = \<lparr>
     nd_agent = or_else (nd_agent new) (nd_agent old),
     nd_description = or_else (nd_description new) (nd_description old),
     nd_agent_prompt = or_else (nd_agent_prompt new) (nd_agent_prompt old),
     nd_reads = or_else (nd_reads new) (nd_reads old),
     nd_writes = or_else (nd_writes new) (nd_writes old),
     nd_status = or_else (nd_status new) (nd_status old),
     nd_output = or_else (nd_output new) (nd_output old),
     nd_error = or_else (nd_error new) (nd_error old),
     nd_final_iteration_output =
       or_else (nd_final_iteration_output new) (nd_final_iteration_output old) \<rparr>"

text \<open>
  \<open>ExecutionContextManager\<close>: the \<open>networkx.DiGraph\<close> (nodes in insertion order with
  their attributes, edges) and the graph attributes the code reads.
\<close>

record ctx =
  nodes :: "(string \<times> node_data) list"
  edges :: "(string \<times> string) list"
  globals_schema :: store
  session_id :: string
  original_query :: json
  file_manifest :: json
  created_at :: string

text \<open>\<open>DiGraph.add_node(n, **attr)\<close>: a new node goes last, an existing one is updated.\<close>

definition add_node :: "string \<Rightarrow> node_data \<Rightarrow> (string \<times> node_data) list
    \<Rightarrow> (string \<times> node_data) list" where
  "add_node n attr ns =
     (case map_of ns n of
        None \<Rightarrow> ns @ [(n, attr)]
      | Some old \<Rightarrow> AList.update n (update_attrs old attr) ns)"

text \<open>
  \<open>DiGraph.add_edge(u, v)\<close>: either endpoint that is not yet a node is added with an
  empty attribute dict; nothing is checked.
\<close>

definition ensure_node :: "string \<Rightarrow> (string \<times> node_data) list \<Rightarrow> (string \<times> node_data) list" where
  "ensure_node n ns = (case map_of ns n of None \<Rightarrow> ns @ [(n, no_attrs)] | Some _ \<Rightarrow> ns)"

definition add_edge :: "string \<Rightarrow> string \<Rightarrow> ctx \<Rightarrow> ctx" where
  "add_edge u v c =
     c\<lparr> nodes := ensure_node v (ensure_node u (nodes c)),
        edges := (if (u, v) \<in> set (edges c) then edges c else edges c @ [(u, v)]) \<rparr>"

definition predecessors :: "ctx \<Rightarrow> string \<Rightarrow> string list" where
  "predecessors c n = map fst (filter (\<lambda>e. snd e = n) (edges c))"

text \<open>\<open>self.plan_graph.nodes[n].get('status', 'pending')\<close>.\<close>

definition status_of :: "ctx \<Rightarrow> string \<Rightarrow> status" where
  "status_of c n =
     (case map_of (nodes c) n of
        None \<Rightarrow> Pending
      | Some d \<Rightarrow> (case nd_status d of None \<Rightarrow> Pending | Some s \<Rightarrow> s))"

subsection \<open>\<open>get_ready_steps\<close>\<close>

definition all_deps_complete :: "ctx \<Rightarrow> string \<Rightarrow> bool" where
  "all_deps_complete c n = list_all (\<lambda>p. status_of c p = Completed) (predecessors c n)"

definition is_ready :: "ctx \<Rightarrow> string \<Rightarrow> bool" where
  "is_ready c n =
     (if n = ''ROOT'' then False
      else if status_of c n \<in> {Completed, Failed, Running} then False
      else all_deps_complete c n)"

definition get_ready_steps :: "ctx \<Rightarrow> string list" where
  "get_ready_steps c = filter (is_ready c) (map fst (nodes c))"

subsection \<open>\<open>get_inputs\<close>\<close>

text \<open>
  The loop over \<open>reads\<close>: a key of \<open>globals_schema\<close> is copied into \<open>inputs\<close>.  For a
  missing one the source prints a diagnostic and builds the list of similar keys,
  \<open>[key for key in globals_schema.keys() if read_key.lower() in key.lower() or ...]\<close>:
  \<open>key.lower()\<close> is evaluated for every key of the store and raises \<open>AttributeError\<close> at
  the first key that is no string.
\<close>

fun get_inputs_loop :: "store \<Rightarrow> string list \<Rightarrow> pydict \<Rightarrow> error + pydict" where
  "get_inputs_loop gs [] inputs = Inr inputs"
| "get_inputs_loop gs (read_key # rest) inputs =
     (case map_of gs (Name read_key) of
        Some v \<Rightarrow> get_inputs_loop gs rest (AList.update read_key v inputs)
      | None \<Rightarrow>
          (if list_ex (\<lambda>key. \<not> is_name key) (map fst gs)
           then Inl (AttributeError ''lower'')
           else get_inputs_loop gs rest inputs))"

definition get_inputs :: "ctx \<Rightarrow> string list \<Rightarrow> error + pydict" where
  "get_inputs c rs = get_inputs_loop (globals_schema c) rs []"

section \<open>Example graphs\<close>

definition plain_node :: "status \<Rightarrow> node_data" where
  "plain_node s = no_attrs\<lparr> nd_agent := Some ''CoderAgent'', nd_status := Some s \<rparr>"

definition diamond :: ctx where
  "diamond = \<lparr>
     nodes = [(''ROOT'', plain_node Completed), (''A'', plain_node Completed),
              (''B'', plain_node Pending), (''C'', plain_node Failed),
              (''D'', plain_node Pending), (''E'', plain_node Pending)],
     edges = [(''A'', ''B''), (''C'', ''D''), (''B'', ''D'')],
     globals_schema = [(Name ''x'', JInt 5), (Name ''y'', JList [])],
     session_id = ''s1'', original_query = JStr ''q'', file_manifest = JList [],
     created_at = ''t0'' \<rparr>"

section \<open>Self-iterating step execution\<close>

text \<open>
  \<open>AgentRunner.run_agent\<close> is the worker: it returns \<open>{"success": True, "output": ...}\<close>,
  or \<open>{"success": False, "error": ...}\<close> when the call failed, or it raises (an unknown
  agent type is a \<open>ValueError\<close> raised before its \<open>try\<close>).
\<close>

datatype agent_result = Success json | Failure string | Raises error

text \<open>
  The dict that \<open>build_agent_input\<close> builds for the worker.  Its keys are fixed; those
  that are only present for a \<open>FormatterAgent\<close>, or only when their value is truthy, are
  options.  \<open>all_globals_schema\<close> is a copy of the store.
\<close>

record agent_input =
  ai_step_id :: string
  ai_agent_prompt :: json
  ai_reads :: "string list"
  ai_writes :: "string list"
  ai_inputs :: pydict
  ai_all_globals_schema :: "store option"
  ai_original_query :: "json option"
  ai_session_context :: "pydict option"
  ai_previous_output :: "json option"
  ai_iteration_context :: "json option"

type_synonym agent_runner = "string \<Rightarrow> agent_input \<Rightarrow> agent_result"

text \<open>\<open>d.get(k, default)\<close> on a dict.\<close>

definition dict_get :: "pydict \<Rightarrow> string \<Rightarrow> json \<Rightarrow> json" where
  "dict_get d k dflt = (case map_of d k of None \<Rightarrow> dflt | Some v \<Rightarrow> v)"

definition reads_or_empty :: "node_data \<Rightarrow> string list" where
  "reads_or_empty d = (case nd_reads d of None \<Rightarrow> [] | Some rs \<Rightarrow> rs)"

definition writes_or_empty :: "node_data \<Rightarrow> string list" where
  "writes_or_empty d = (case nd_writes d of None \<Rightarrow> [] | Some ws \<Rightarrow> ws)"

text \<open>
  \<open>instruction or step_data.get("agent_prompt", step_data["description"])\<close>: the right
  operand is evaluated only for a falsy instruction, and then \<open>step_data["description"]\<close>
  is evaluated first and raises when the node has no description.
\<close>

definition agent_prompt_of :: "node_data \<Rightarrow> json \<Rightarrow> error + json" where
  "agent_prompt_of step_data instruction =
     (if truthy instruction then Inr instruction
      else (case nd_description step_data of
              None \<Rightarrow> Inl (KeyError ''description'')
            | Some d \<Rightarrow> Inr (case nd_agent_prompt step_data of None \<Rightarrow> d | Some p \<Rightarrow> p)))"

definition build_agent_input :: "ctx \<Rightarrow> string \<Rightarrow> node_data \<Rightarrow> string \<Rightarrow> pydict
    \<Rightarrow> json \<Rightarrow> json \<Rightarrow> json \<Rightarrow> error + agent_input" where
  "build_agent_input c step_id step_data agent_type inputs instruction previous_output
       iteration_context =
     (case agent_prompt_of step_data instruction of
        Inl e \<Rightarrow> Inl e
      | Inr agent_prompt \<Rightarrow> Inr \<lparr>
          ai_step_id = step_id,
          ai_agent_prompt = agent_prompt,
          ai_reads = reads_or_empty step_data,
          ai_writes = writes_or_empty step_data,
          ai_inputs = inputs,
          ai_all_globals_schema =
            (if agent_type = ''FormatterAgent'' then Some (globals_schema c) else None),
          ai_original_query =
            (if agent_type = ''FormatterAgent'' then Some (original_query c) else None),
          ai_session_context =
            (if agent_type = ''FormatterAgent''
             then Some [(''session_id'', JStr (session_id c)),
                        (''created_at'', JStr (created_at c)),
                        (''file_manifest'', file_manifest c)]
             else None),
          ai_previous_output = (if truthy previous_output then Some previous_output else None),
          ai_iteration_context =
            (if truthy iteration_context then Some iteration_context else None) \<rparr>)"

definition set_step_output :: "ctx \<Rightarrow> string \<Rightarrow> json \<Rightarrow> ctx" where
  "set_step_output c step_id output_dict =
     (case map_of (nodes c) step_id of
        None \<Rightarrow> c
      | Some d \<Rightarrow> c\<lparr> nodes := AList.update step_id (d\<lparr> nd_output := Some output_dict \<rparr>) (nodes c) \<rparr>)"

text \<open>The lines that \<open>_execute_step\<close> prints about the course of the loop.\<close>

datatype event =
    Running_iteration nat
  | Iteration_failed nat string
  | Completed_after nat
  | Calling_self nat
  | Reached_max_iterations nat

text \<open>
  The local variables of the loop.  \<open>invocations\<close> is not in the source: it records each
  call of the worker (its input and what came back), so that the number of calls and the
  output of the last one can be stated.
\<close>

record loop_state =
  current_iteration :: nat
  current_output :: json
  current_instruction :: json
  current_iteration_context :: json
  loop_ctx :: ctx
  invocations :: "(agent_input \<times> agent_result) list"
  printed :: "event list"

definition say :: "event \<Rightarrow> loop_state \<Rightarrow> loop_state" where
  "say e s = s\<lparr> printed := printed s @ [e] \<rparr>"

definition invoked :: "agent_input \<Rightarrow> agent_result \<Rightarrow> loop_state \<Rightarrow> loop_state" where
  "invoked agent_input r s = s\<lparr> invocations := invocations s @ [(agent_input, r)] \<rparr>"

text \<open>
  After a successful call: \<open>set_step_output\<close>, \<open>current_output = result["output"]\<close>,
  \<open>current_iteration += 1\<close>.
\<close>

definition store_output :: "string \<Rightarrow> json \<Rightarrow> loop_state \<Rightarrow> loop_state" where
  "store_output step_id out s =
     s\<lparr> loop_ctx := set_step_output (loop_ctx s) step_id out,
        current_output := out,
        current_iteration := Suc (current_iteration s) \<rparr>"

text \<open>The worker asked to be called again: its instruction and context are adopted.\<close>

definition adopt :: "pydict \<Rightarrow> loop_state \<Rightarrow> loop_state" where
  "adopt d s =
     s\<lparr> current_instruction := dict_get d ''next_instruction'' (current_instruction s),
        current_iteration_context :=
          dict_get d ''iteration_context'' (current_iteration_context s) \<rparr>"

text \<open>
  The \<open>while current_iteration <= max_iterations\<close> loop of \<open>_execute_step\<close>.  The result
  is the exception that left the loop, if any, and the state at that point.  The bound is
  an argument here; the source fixes it to 20.
\<close>

function iteration_loop :: "agent_runner \<Rightarrow> nat \<Rightarrow> string \<Rightarrow> node_data \<Rightarrow> string \<Rightarrow> pydict
    \<Rightarrow> loop_state \<Rightarrow> error option \<times> loop_state" where
  "iteration_loop run mx step_id step_data agent_type inputs s =
     (if current_iteration s \<le> mx then
        (case build_agent_input (loop_ctx s) step_id step_data agent_type inputs
                (current_instruction s) (current_output s) (current_iteration_context s) of
           Inl e \<Rightarrow> (Some e, s)
         | Inr agent_input \<Rightarrow>
             (case run agent_type agent_input of
                Raises e \<Rightarrow>
                  (Some e, invoked agent_input (Raises e)
                             (say (Running_iteration (current_iteration s)) s))
              | Failure msg \<Rightarrow>
                  (None, say (Iteration_failed (current_iteration s) msg)
                           (invoked agent_input (Failure msg)
                             (say (Running_iteration (current_iteration s)) s)))
              | Success out \<Rightarrow>
                  (case out of
                     JDict d \<Rightarrow>
                       (if d = [] then
                          (if mx < Suc (current_iteration s)
                           then (None, say (Reached_max_iterations mx)
                                   (store_output step_id out
                                     (invoked agent_input (Success out)
                                       (say (Running_iteration (current_iteration s)) s))))
                           else iteration_loop run mx step_id step_data agent_type inputs
                                   (store_output step_id out
                                     (invoked agent_input (Success out)
                                       (say (Running_iteration (current_iteration s)) s))))
                        else if \<not> truthy (dict_get d ''call_self'' (JBool False)) then
                          (None, say (Completed_after (Suc (current_iteration s)))
                                   (store_output step_id out
                                     (invoked agent_input (Success out)
                                       (say (Running_iteration (current_iteration s)) s))))
                        else if mx < Suc (current_iteration s) then
                          (None, say (Reached_max_iterations mx)
                                   (say (Calling_self (Suc (current_iteration s)))
                                     (adopt d (store_output step_id out
                                       (invoked agent_input (Success out)
                                         (say (Running_iteration (current_iteration s)) s))))))
                        else iteration_loop run mx step_id step_data agent_type inputs
                               (say (Calling_self (Suc (current_iteration s)))
                                 (adopt d (store_output step_id out
                                   (invoked agent_input (Success out)
                                     (say (Running_iteration (current_iteration s)) s))))))
                   | _ \<Rightarrow>
                       (if mx < Suc (current_iteration s)
                        then (None, say (Reached_max_iterations mx)
                                (store_output step_id out
                                  (invoked agent_input (Success out)
                                    (say (Running_iteration (current_iteration s)) s))))
                        else iteration_loop run mx step_id step_data agent_type inputs
                                (store_output step_id out
                                  (invoked agent_input (Success out)
                                    (say (Running_iteration (current_iteration s)) s)))))))
      else (None, s))"
  by pat_completeness auto
termination
  by (relation "measure (\<lambda>(run, mx, step_id, step_data, agent_type, inputs, s).
        Suc mx - current_iteration s)")
     (auto simp: say_def adopt_def store_output_def invoked_def)

definition max_iterations :: nat where
  "max_iterations = 20"

definition initial_loop_state :: "ctx \<Rightarrow> loop_state" where
  "initial_loop_state c = \<lparr> current_iteration = 1, current_output = JNull,
     current_instruction = JNull, current_iteration_context = JNull, loop_ctx = c,
     invocations = [], printed = [] \<rparr>"

text \<open>What \<open>_execute_step\<close> returns: always the dict \<open>{"success": True, "output": ...}\<close>.\<close>

record step_result =
  sr_success :: bool
  sr_output :: json
  sr_error :: "string option"

text \<open>
  The outcome of awaiting \<open>_execute_step\<close>: the graph as the step left it, and the
  returned dict or the exception it raised; with the worker calls and the printed lines.
\<close>

record step_exit =
  ex_ctx :: ctx
  ex_result :: "error + step_result"
  ex_invocations :: "(agent_input \<times> agent_result) list"
  ex_printed :: "event list"

text \<open>
  After the loop: \<open>step_data['final_iteration_output'] = current_output\<close> and
  \<open>return {"success": True, "output": current_output}\<close>, whichever way the loop ended.
\<close>

definition set_final_iteration_output :: "ctx \<Rightarrow> string \<Rightarrow> json \<Rightarrow> ctx" where
  "set_final_iteration_output c step_id out =
     (case map_of (nodes c) step_id of
        None \<Rightarrow> c
      | Some d \<Rightarrow> c\<lparr> nodes := AList.update step_id
                        (d\<lparr> nd_final_iteration_output := Some out \<rparr>) (nodes c) \<rparr>)"

definition execute_step :: "agent_runner \<Rightarrow> nat \<Rightarrow> string \<Rightarrow> ctx \<Rightarrow> step_exit" where
  "execute_step run mx step_id c =
     (case map_of (nodes c) step_id of
        None \<Rightarrow> \<lparr> ex_ctx = c, ex_result = Inl (KeyError step_id),
                  ex_invocations = [], ex_printed = [] \<rparr>
      | Some step_data \<Rightarrow>
          (case nd_agent step_data of
             None \<Rightarrow> \<lparr> ex_ctx = c, ex_result = Inl (KeyError ''agent''),
                       ex_invocations = [], ex_printed = [] \<rparr>
           | Some agent_type \<Rightarrow>
               (case get_inputs c (reads_or_empty step_data) of
                  Inl e \<Rightarrow> \<lparr> ex_ctx = c, ex_result = Inl e,
                             ex_invocations = [], ex_printed = [] \<rparr>
                | Inr inputs \<Rightarrow>
                    (case iteration_loop run mx step_id step_data agent_type inputs
                            (initial_loop_state c) of
                       (Some e, s) \<Rightarrow>
                         \<lparr> ex_ctx = loop_ctx s, ex_result = Inl e,
                           ex_invocations = invocations s, ex_printed = printed s \<rparr>
                     | (None, s) \<Rightarrow>
                         \<lparr> ex_ctx = set_final_iteration_output (loop_ctx s) step_id
                                      (current_output s),
                           ex_result = Inr \<lparr> sr_success = True, sr_output = current_output s,
                                             sr_error = None \<rparr>,
                           ex_invocations = invocations s, ex_printed = printed s \<rparr>))))"

subsection \<open>Example steps and workers\<close>

definition coder_step :: node_data where
  "coder_step = no_attrs\<lparr> nd_agent := Some ''CoderAgent'',
     nd_description := Some (JStr ''build it''), nd_reads := Some [],
     nd_writes := Some [''z''], nd_status := Some Running, nd_output := Some JNull \<rparr>"

definition one_step :: ctx where
  "one_step = \<lparr> nodes = [(''ROOT'', root_attrs), (''T1'', coder_step)], edges = [],
     globals_schema = [], session_id = ''s1'', original_query = JStr ''q'',
     file_manifest = JList [], created_at = ''t0'' \<rparr>"


section \<open>Completing a step: \<open>mark_done\<close>\<close>

subsection \<open>Strings\<close>

definition startswith :: "string \<Rightarrow> string \<Rightarrow> bool" where
  "startswith s p = (take (length p) s = p)"

definition endswith :: "string \<Rightarrow> string \<Rightarrow> bool" where
  "endswith s p = (length p \<le> length s \<and> drop (length s - length p) s = p)"

text \<open>\<open>sub in s\<close> on strings.\<close>

fun contains :: "string \<Rightarrow> string \<Rightarrow> bool" where
  "contains [] sub = (sub = [])"
| "contains (c # cs) sub = (startswith (c # cs) sub \<or> contains cs sub)"

text \<open>\<open>str.lower()\<close>, on the ASCII letters.\<close>

definition lower_char :: "char \<Rightarrow> char" where
  "lower_char c =
     (if (65::nat) \<le> of_char c \<and> of_char c \<le> (90::nat)
      then char_of (of_char c + (32::nat)) else c)"

definition lower :: "string \<Rightarrow> string" where
  "lower s = map lower_char s"

subsection \<open>The collaborators\<close>

text \<open>
  What \<open>mark_done\<close> and the driver call outside this repository's sources:
  \<^item> \<open>run_agent\<close>, the worker;
  \<^item> \<open>run_user_code\<close> (\<open>action.executor\<close>), given here the variant's key and code, the
    agent output, \<open>globals_schema\<close> and \<open>reads_data\<close>, from which the source builds the
    text it passes; it returns a result or raises;
  \<^item> \<open>rich.prompt.Prompt.ask\<close>: \<open>ask_choice\<close> is the call with \<open>choices\<close> "1".."n" and
    returns the number chosen, \<open>ask_response\<close> is the free-text call; either may raise;
  \<^item> \<open>json.loads\<close>, with \<open>None\<close> for a \<open>JSONDecodeError\<close>.
\<close>

record collaborators =
  run_agent :: agent_runner
  run_user_code :: "string \<Rightarrow> string \<Rightarrow> pydict \<Rightarrow> store \<Rightarrow> pydict \<Rightarrow> error + json"
  ask_choice :: "json \<Rightarrow> nat \<Rightarrow> error + nat"
  ask_response :: "json \<Rightarrow> error + string"
  json_loads :: "string \<Rightarrow> json option"

subsection \<open>User interaction\<close>

definition is_clarification_request :: "string \<Rightarrow> json \<Rightarrow> bool" where
  "is_clarification_request agent_type output =
     (agent_type = ''ClarificationAgent'' \<and>
      (case output of JDict d \<Rightarrow> map_of d ''clarificationMessage'' \<noteq> None | _ \<Rightarrow> False))"

text \<open>
  \<open>options[int(choice) - 1]\<close> after \<open>enumerate(options, 1)\<close> and \<open>len(options)\<close>: a list
  gives the chosen item, a string the chosen character, a dict has no integer key, and a
  number is not iterable.
\<close>

definition selected_option :: "json \<Rightarrow> nat \<Rightarrow> error + json" where
  "selected_option options choice =
     (case options of
        JList opts \<Rightarrow>
          (if 1 \<le> choice \<and> choice \<le> length opts then Inr (opts ! (choice - 1))
           else Inl (IndexError ''list index out of range''))
      | JStr s \<Rightarrow>
          (if 1 \<le> choice \<and> choice \<le> length s then Inr (JStr [s ! (choice - 1)])
           else Inl (IndexError ''string index out of range''))
      | JDict d \<Rightarrow> Inl (KeyError ''choice'')
      | _ \<Rightarrow> Inl (TypeError ''object is not iterable''))"

definition option_count :: "json \<Rightarrow> error + nat" where
  "option_count options =
     (case options of
        JList opts \<Rightarrow> Inr (length opts)
      | JStr s \<Rightarrow> Inr (length s)
      | JDict d \<Rightarrow> Inr (length d)
      | _ \<Rightarrow> Inl (TypeError ''object is not iterable''))"

definition handle_user_interaction_rich :: "collaborators \<Rightarrow> pydict \<Rightarrow> error + json" where
  "handle_user_interaction_rich env clarification_output =
     (let message = dict_get clarification_output ''clarificationMessage'' (JStr []);
          options = dict_get clarification_output ''options'' (JList [])
      in if truthy options then
           (case option_count options of
              Inl e \<Rightarrow> Inl e
            | Inr n \<Rightarrow>
                (case ask_choice env message n of
                   Inl e \<Rightarrow> Inl e
                 | Inr choice \<Rightarrow> selected_option options choice))
         else (case ask_response env message of
                 Inl e \<Rightarrow> Inl e
               | Inr response \<Rightarrow> Inr (JStr response)))"

text \<open>
  The \<open>try\<close> block of the user-interaction check.  \<open>globals_schema[writes_to]\<close> stores
  the response under whatever hashable key the output names and raises \<open>TypeError\<close> for
  a list or a dict.  The result is the store and the output after the block; any
  exception is caught by \<open>except Exception\<close> and leaves both unchanged.
\<close>

definition user_interaction_check :: "collaborators \<Rightarrow> string \<Rightarrow> json \<Rightarrow> store
    \<Rightarrow> store \<times> json" where
  "user_interaction_check env agent_type output gs =
     (if is_clarification_request agent_type output then
        (case output of
           JDict d \<Rightarrow>
             (case handle_user_interaction_rich env d of
                Inl e \<Rightarrow> (gs, output)
              | Inr user_response \<Rightarrow>
                  (case key_of (dict_get d ''writes_to'' (JStr ''user_response'')) of
                     Inl e \<Rightarrow> (gs, output)
                   | Inr writes_to \<Rightarrow>
                       (AList.update writes_to user_response gs,
                        JDict (AList.update ''interaction_completed'' (JBool True)
                                 (AList.update ''user_response'' user_response d)))))
         | _ \<Rightarrow> (gs, output))
      else (gs, output))"

subsection \<open>Code execution\<close>

definition has_executable_code :: "json \<Rightarrow> bool" where
  "has_executable_code output =
     (case output of
        JDict d \<Rightarrow>
          (map_of d ''code_variants'' \<noteq> None
           \<or> list_ex (\<lambda>k. startswith k ''CODE_'') (map fst d)
           \<or> list_ex (\<lambda>key. map_of d key \<noteq> None)
                [''tool_calls'', ''schedule_tool'', ''browser_commands'', ''python_code''])
      | _ \<Rightarrow> False)"

text \<open>
  \<open>_extract_executable_code\<close>: the string-valued entries of \<open>output["code_variants"]\<close>;
  \<open>.items()\<close> raises when that value is no dict.  (The source also strips the code of
  surrounding white space before it is run.)
\<close>

definition extract_executable_code :: "pydict \<Rightarrow> error + (string \<times> string) list" where
  "extract_executable_code output =
     (case map_of output ''code_variants'' of
        None \<Rightarrow> Inr []
      | Some (JDict cv) \<Rightarrow>
          Inr (List.map_filter (\<lambda>(key, code). case code of JStr s \<Rightarrow> Some (key, s) | _ \<Rightarrow> None) cv)
      | Some _ \<Rightarrow> Inl (AttributeError ''items''))"

text \<open>\<open>reads_data\<close>: the reads that the store holds; here a missing key is skipped silently.\<close>

fun reads_data_loop :: "store \<Rightarrow> string list \<Rightarrow> pydict \<Rightarrow> pydict" where
  "reads_data_loop gs [] reads_data = reads_data"
| "reads_data_loop gs (read_key # rest) reads_data =
     (case map_of gs (Name read_key) of
        Some v \<Rightarrow> reads_data_loop gs rest (AList.update read_key v reads_data)
      | None \<Rightarrow> reads_data_loop gs rest reads_data)"

definition reads_data_of :: "store \<Rightarrow> string list \<Rightarrow> pydict" where
  "reads_data_of gs rs = reads_data_loop gs rs []"

text \<open>
  The loop of \<open>_auto_execute_code\<close> over the variants: the first result whose
  \<open>status\<close> is \<open>"success"\<close> is returned with \<open>executed_variant\<close> added; an exception in a
  variant (also \<open>result.get\<close> on a result that is no dict) moves on to the next one.
\<close>

fun try_variants :: "collaborators \<Rightarrow> pydict \<Rightarrow> store \<Rightarrow> pydict \<Rightarrow> (string \<times> string) list
    \<Rightarrow> pydict" where
  "try_variants env output gs reads_data [] =
     [(''status'', JStr ''error''), (''error'', JStr ''All code variants failed'')]"
| "try_variants env output gs reads_data ((code_key, code) # rest) =
     (case run_user_code env code_key code output gs reads_data of
        Inr (JDict result) \<Rightarrow>
          (if map_of result ''status'' = Some (JStr ''success'')
           then AList.update ''executed_variant'' (JStr code_key) result
           else try_variants env output gs reads_data rest)
      | _ \<Rightarrow> try_variants env output gs reads_data rest)"

definition auto_execute_code :: "collaborators \<Rightarrow> ctx \<Rightarrow> node_data \<Rightarrow> pydict \<Rightarrow> error + pydict" where
  "auto_execute_code env c step_data output =
     (case extract_executable_code output of
        Inl e \<Rightarrow> Inl e
      | Inr code_to_execute \<Rightarrow>
          (if code_to_execute = []
           then Inr [(''status'', JStr ''error''), (''error'', JStr ''No executable code found'')]
           else Inr (try_variants env output (globals_schema c)
                       (reads_data_of (globals_schema c) (reads_or_empty step_data))
                       code_to_execute)))"

text \<open>
  The test both \<open>_merge_execution_results\<close> and strategy 1 make on a value: is it a dict
  whose \<open>content\<close> is a list, and what is the \<open>text\<close> of the first item.  \<open>.get\<close> on an
  item that is no dict and \<open>.startswith\<close> on a text that is no string raise, and the
  handlers of the source, which catch \<open>JSONDecodeError\<close>, \<open>KeyError\<close> and \<open>IndexError\<close>, let
  an exception through: the \<open>AttributeError\<close>, or the \<open>UnboundLocalError\<close> raised while
  the handler's tuple is evaluated before the function-local \<open>import json\<close> has run.  The
  model names both \<open>AttributeError\<close>; either leaves the function.
\<close>

datatype content_shape = No_content_list | Empty_content | Bracketed string | Plain_text string

definition content_shape_of :: "json \<Rightarrow> error + content_shape" where
  "content_shape_of v =
     (case v of
        JDict vd \<Rightarrow>
          (case map_of vd ''content'' of
             Some (JList cs) \<Rightarrow>
               (case cs of
                  [] \<Rightarrow> Inr Empty_content
                | first # _ \<Rightarrow>
                    (case first of
                       JDict fd \<Rightarrow>
                         (case dict_get fd ''text'' (JStr []) of
                            JStr text_content \<Rightarrow>
                              Inr (if startswith text_content ''['' \<and> endswith text_content '']''
                                   then Bracketed text_content else Plain_text text_content)
                          | _ \<Rightarrow> Inl (AttributeError ''startswith''))
                     | _ \<Rightarrow> Inl (AttributeError ''get'')))
           | _ \<Rightarrow> Inr No_content_list)
      | _ \<Rightarrow> Inr No_content_list)"

text \<open>\<open>len(parsed_data)\<close> in the message printed after a successful parse.\<close>

fun has_len :: "json \<Rightarrow> bool" where
  "has_len (JStr _) = True"
| "has_len (JList _) = True"
| "has_len (JDict _) = True"
| "has_len _ = False"

text \<open>The second loop of \<open>_merge_execution_results\<close> over \<open>result_data.items()\<close>.\<close>

fun merge_items :: "collaborators \<Rightarrow> pydict \<Rightarrow> pydict \<Rightarrow> error + pydict" where
  "merge_items env [] enhanced_output = Inr enhanced_output"
| "merge_items env ((key, v) # rest) enhanced_output =
     (case content_shape_of v of
        Inl e \<Rightarrow> Inl e
      | Inr No_content_list \<Rightarrow>
          merge_items env rest (AList.update key (stored_value v) enhanced_output)
      | Inr Empty_content \<Rightarrow> merge_items env rest (AList.update key v enhanced_output)
      | Inr (Plain_text text_content) \<Rightarrow>
          merge_items env rest (AList.update key (JStr text_content) enhanced_output)
      | Inr (Bracketed text_content) \<Rightarrow>
          (case json_loads env text_content of
             None \<Rightarrow> merge_items env rest (AList.update key v enhanced_output)
           | Some parsed_data \<Rightarrow>
               (if has_len parsed_data
                then merge_items env rest (AList.update key parsed_data enhanced_output)
                else Inl (TypeError ''len''))))"

text \<open>The first loop: every entry of a non-empty \<open>result_data\<close> goes to the top level.\<close>

fun merge_top :: "pydict \<Rightarrow> pydict \<Rightarrow> pydict" where
  "merge_top [] enhanced_output = enhanced_output"
| "merge_top ((key, v) # rest) enhanced_output =
     merge_top rest (AList.update key (stored_value v) enhanced_output)"

definition merge_execution_results :: "collaborators \<Rightarrow> pydict \<Rightarrow> pydict \<Rightarrow> error + pydict" where
  "merge_execution_results env original_output execution_result =
     (let enhanced_output =
            AList.update ''executed_variant'' (dict_get execution_result ''executed_variant'' JNull)
           (AList.update ''execution_time'' (dict_get execution_result ''execution_time'' JNull)
           (AList.update ''execution_error'' (dict_get execution_result ''error'' JNull)
           (AList.update ''execution_status'' (dict_get execution_result ''status'' JNull)
           (AList.update ''execution_result'' (dict_get execution_result ''result'' JNull)
              original_output))))
      in if execution_result \<noteq> [] \<and> map_of execution_result ''status'' = Some (JStr ''success'')
         then (case dict_get execution_result ''result'' (JDict []) of
                 JDict result_data \<Rightarrow> merge_items env result_data (merge_top result_data enhanced_output)
               | result_data \<Rightarrow> Inr (AList.update ''execution_result'' result_data enhanced_output))
         else Inr enhanced_output)"

text \<open>
  The code-execution check of \<open>mark_done\<close>: \<open>execution_result\<close> and the output after it.
  An exception of \<open>_auto_execute_code\<close> leaves both as they were; an exception of the
  merge leaves the output as it was, with \<open>execution_result\<close> already assigned.
\<close>

definition code_execution_check :: "collaborators \<Rightarrow> ctx \<Rightarrow> node_data \<Rightarrow> json
    \<Rightarrow> pydict option \<times> json" where
  "code_execution_check env c step_data output =
     (if has_executable_code output then
        (case output of
           JDict d \<Rightarrow>
             (case auto_execute_code env c step_data d of
                Inl e \<Rightarrow> (None, output)
              | Inr execution_result \<Rightarrow>
                  (case merge_execution_results env d execution_result of
                     Inl e \<Rightarrow> (Some execution_result, output)
                   | Inr merged \<Rightarrow> (Some execution_result, JDict merged)))
         | _ \<Rightarrow> (None, output))
      else (None, output))"

subsection \<open>Extraction of the declared writes\<close>

text \<open>
  \<open>deep_search\<close> (and its copy \<open>deep_search_output\<close>): depth first through dicts and
  lists.  \<open>JNull\<close> is Python's \<open>None\<close>, which the search returns for "not found"; a key
  that equals the target ends the search of its dict even when its value is \<open>None\<close>.
\<close>

fun deep_search :: "json \<Rightarrow> string \<Rightarrow> json"
  and deep_search_items :: "(string \<times> json) list \<Rightarrow> string \<Rightarrow> json"
  and deep_search_list :: "json list \<Rightarrow> string \<Rightarrow> json" where
  "deep_search (JDict kvs) target_key = deep_search_items kvs target_key"
| "deep_search (JList xs) target_key = deep_search_list xs target_key"
| "deep_search JNull target_key = JNull"
| "deep_search (JBool b) target_key = JNull"
| "deep_search (JInt i) target_key = JNull"
| "deep_search (JFloat r) target_key = JNull"
| "deep_search (JStr s) target_key = JNull"
| "deep_search_items [] target_key = JNull"
| "deep_search_items ((key, v) # rest) target_key =
     (if key = target_key then v
      else (case deep_search v target_key of
              JNull \<Rightarrow> deep_search_items rest target_key
            | result \<Rightarrow> result))"
| "deep_search_list [] target_key = JNull"
| "deep_search_list (item # rest) target_key =
     (case deep_search item target_key of
        JNull \<Rightarrow> deep_search_list rest target_key
      | result \<Rightarrow> result)"

text \<open>Which branch of \<open>mark_done\<close> stored the value; the source prints a line for each.\<close>

datatype strategy =
    Parsed_from_nested_structure
  | Direct
  | Deep_search
  | Direct_output_after_merge
  | From_execution_result
  | Deep_output_search
  | Formatter_pattern string
  | Formatter_fallback string
  | Comprehensive_fallback string
  | Fallback string
  | Output_fallback string
  | Empty_list_last_resort

text \<open>
  Strategies 1 and 2, entered when \<open>execution_result\<close> is truthy with status
  \<open>"success"\<close>.  The debug line \<open>list(result_data.keys())\<close> raises when the result is no
  dict; an empty result is replaced by the whole \<open>execution_result\<close>.
\<close>

definition from_execution_result :: "collaborators \<Rightarrow> pydict \<Rightarrow> string
    \<Rightarrow> error + (json \<times> strategy) option" where
  "from_execution_result env execution_result write_key =
     (case dict_get execution_result ''result'' (JDict []) of
        JDict result0 \<Rightarrow>
          (let result_data = (if result0 = [] then execution_result else result0)
           in (case map_of result_data write_key of
                 Some v \<Rightarrow>
                   (case content_shape_of v of
                      Inl e \<Rightarrow> Inl e
                    | Inr (Bracketed text_content) \<Rightarrow>
                        (case json_loads env text_content of
                           None \<Rightarrow> Inr (Some (stored_value v, Direct))
                         | Some parsed_data \<Rightarrow>
                             (if has_len parsed_data
                              then Inr (Some (parsed_data, Parsed_from_nested_structure))
                              else Inl (TypeError ''len'')))
                    | Inr _ \<Rightarrow> Inr (Some (stored_value v, Direct)))
               | None \<Rightarrow>
                   (case deep_search (JDict result_data) write_key of
                      JNull \<Rightarrow> Inr None
                    | found_value \<Rightarrow> Inr (Some (stored_value found_value, Deep_search)))))
      | _ \<Rightarrow> Inl (AttributeError ''keys''))"

text \<open>Strategy 3, for an output that is a non-empty dict.\<close>

definition from_output :: "pydict \<Rightarrow> string \<Rightarrow> (json \<times> strategy) option" where
  "from_output output write_key =
     (case map_of output write_key of
        Some v \<Rightarrow> Some (stored_value v, Direct_output_after_merge)
      | None \<Rightarrow>
          (case map_of output ''execution_result'' of
             Some (JDict exec_result) \<Rightarrow>
               (case map_of exec_result write_key of
                  Some v \<Rightarrow> Some (stored_value v, From_execution_result)
                | None \<Rightarrow> None)
           | _ \<Rightarrow>
               (case deep_search (JDict output) write_key of
                  JNull \<Rightarrow> None
                | found_value \<Rightarrow> Some (stored_value found_value, Deep_output_search))))"

text \<open>Strategy 4, the name patterns tried for a \<open>FormatterAgent\<close>.\<close>

definition formatter_patterns :: "string \<Rightarrow> string \<Rightarrow> string list" where
  "formatter_patterns step_id write_key =
     [''formatted_'' @ write_key,
      ''formatted_report_'' @ write_key,
      ''formatted_html_'' @ write_key,
      ''formatted_output_'' @ write_key,
      ''formatted_'' @ write_key,
      ''formatted_report_'' @ step_id,
      ''formatted_html_'' @ step_id,
      ''formatted_output_'' @ step_id,
      ''formatted_'' @ step_id,
      ''formatted_report'',
      ''formatted_html'',
      ''formatted_output'',
      ''formatted'']"

fun first_pattern :: "pydict \<Rightarrow> string list \<Rightarrow> (json \<times> strategy) option" where
  "first_pattern output [] = None"
| "first_pattern output (pattern # rest) =
     (case map_of output pattern of
        Some v \<Rightarrow> (if truthy v then Some (v, Formatter_pattern pattern)
                   else first_pattern output rest)
      | None \<Rightarrow> first_pattern output rest)"

text \<open>\<open>for key, value in output.items(): if <test on key> and value: ... break\<close>.\<close>

fun first_item :: "(string \<Rightarrow> bool) \<Rightarrow> pydict \<Rightarrow> (string \<times> json) option" where
  "first_item test [] = None"
| "first_item test ((key, v) # rest) =
     (if test key \<and> truthy v then Some (key, v) else first_item test rest)"

definition from_formatter :: "string \<Rightarrow> pydict \<Rightarrow> string \<Rightarrow> (json \<times> strategy) option" where
  "from_formatter step_id output write_key =
     (case first_pattern output (formatter_patterns step_id write_key) of
        Some r \<Rightarrow> Some r
      | None \<Rightarrow>
          (case first_item (\<lambda>key. contains (lower key) ''formatted'') output of
             Some (key, v) \<Rightarrow> Some (v, Formatter_fallback key)
           | None \<Rightarrow>
               (case first_item (\<lambda>key. list_ex (\<lambda>term. contains key term)
                                          [step_id, write_key, write_key]) output of
                  Some (key, v) \<Rightarrow> Some (v, Comprehensive_fallback key)
                | None \<Rightarrow> None)))"

text \<open>
  The strategies before the emergency fallback, in the order of the source.  \<open>None\<close> for
  \<open>execution_result\<close> is Python's \<open>None\<close> (no code was run).  For a \<open>FormatterAgent\<close> the
  debug line \<open>list(output.keys())\<close> raises on a truthy output that is no dict.
\<close>

definition earlier_strategies :: "collaborators \<Rightarrow> string \<Rightarrow> string \<Rightarrow> pydict option \<Rightarrow> json
    \<Rightarrow> string \<Rightarrow> error + (json \<times> strategy) option" where
  "earlier_strategies env step_id agent_type execution_result output write_key =
     (case (case execution_result of
              None \<Rightarrow> Inr None
            | Some er \<Rightarrow>
                (if er \<noteq> [] \<and> map_of er ''status'' = Some (JStr ''success'')
                 then from_execution_result env er write_key else Inr None)) of
        Inl e \<Rightarrow> Inl e
      | Inr (Some r) \<Rightarrow> Inr (Some r)
      | Inr None \<Rightarrow>
          (case (case output of
                   JDict d \<Rightarrow> (if d = [] then None else from_output d write_key)
                 | _ \<Rightarrow> None) of
             Some r \<Rightarrow> Inr (Some r)
           | None \<Rightarrow>
               (if agent_type = ''FormatterAgent'' \<and> truthy output then
                  (case output of
                     JDict d \<Rightarrow> Inr (from_formatter step_id d write_key)
                   | _ \<Rightarrow> Inl (AttributeError ''keys''))
                else Inr None)))"

text \<open>
  Strategy 5, the emergency fallback.  Its first lines print the keys of
  \<open>execution_result.get('result', {})\<close> and of a truthy \<open>output\<close>, which raises when
  either is no dict.  Then: the value under the first key of a non-empty result dict, if
  that key is a non-empty string; else the first truthy value of the output dict; else
  the empty list.
\<close>

definition emergency_fallback :: "pydict option \<Rightarrow> json \<Rightarrow> error + (json \<times> strategy)" where
  "emergency_fallback execution_result output =
     (if (case execution_result of
            None \<Rightarrow> False
          | Some er \<Rightarrow> er \<noteq> [] \<and> \<not> is_dict (dict_get er ''result'' (JDict [])))
      then Inl (AttributeError ''keys'')
      else if truthy output \<and> \<not> is_dict output then Inl (AttributeError ''keys'')
      else
        (case (case execution_result of
                 None \<Rightarrow> None
               | Some er \<Rightarrow>
                   (case dict_get er ''result'' JNull of
                      JDict ((first_key, fallback_value) # rest) \<Rightarrow>
                        (if first_key \<noteq> []
                         then Some (stored_value fallback_value, Fallback first_key)
                         else None)
                    | _ \<Rightarrow> None)) of
           Some r \<Rightarrow> Inr r
         | None \<Rightarrow>
             (case (case output of
                      JDict d \<Rightarrow> first_item (\<lambda>key. True) d
                    | _ \<Rightarrow> None) of
                Some (key, v) \<Rightarrow> Inr (stored_value v, Output_fallback key)
              | None \<Rightarrow> Inr (JList [], Empty_list_last_resort))))"

text \<open>The value that the body of \<open>for write_key in writes\<close> stores, and by which branch.\<close>

definition extract_write :: "collaborators \<Rightarrow> string \<Rightarrow> string \<Rightarrow> pydict option \<Rightarrow> json
    \<Rightarrow> string \<Rightarrow> error + (json \<times> strategy)" where
  "extract_write env step_id agent_type execution_result output write_key =
     (case earlier_strategies env step_id agent_type execution_result output write_key of
        Inl e \<Rightarrow> Inl e
      | Inr (Some r) \<Rightarrow> Inr r
      | Inr None \<Rightarrow> emergency_fallback execution_result output)"

fun extract_writes :: "collaborators \<Rightarrow> string \<Rightarrow> string \<Rightarrow> pydict option \<Rightarrow> json
    \<Rightarrow> string list \<Rightarrow> store \<Rightarrow> error + store" where
  "extract_writes env step_id agent_type execution_result output [] gs = Inr gs"
| "extract_writes env step_id agent_type execution_result output (write_key # rest) gs =
     (case extract_write env step_id agent_type execution_result output write_key of
        Inl e \<Rightarrow> Inl e
      | Inr (v, how) \<Rightarrow>
          extract_writes env step_id agent_type execution_result output rest
            (AList.update (Name write_key) v gs))"

subsection \<open>\<open>mark_done\<close>, \<open>mark_running\<close>, \<open>mark_failed\<close>, \<open>all_done\<close>\<close>

definition set_status :: "string \<Rightarrow> status \<Rightarrow> ctx \<Rightarrow> ctx" where
  "set_status step_id st c =
     (case map_of (nodes c) step_id of
        None \<Rightarrow> c
      | Some d \<Rightarrow> c\<lparr> nodes := AList.update step_id (d\<lparr> nd_status := Some st \<rparr>) (nodes c) \<rparr>)"

text \<open>
  \<open>mark_done\<close>: user interaction, code execution, extraction of the writes, then
  \<open>status = 'completed'\<close> and the output stored.  Saving a formatter report to disk sits
  in a \<open>try\<close> that catches everything and changes nothing of the graph; it is left out.
\<close>

definition mark_done :: "collaborators \<Rightarrow> string \<Rightarrow> json \<Rightarrow> ctx \<Rightarrow> error + ctx" where
  "mark_done env step_id output c =
     (case map_of (nodes c) step_id of
        None \<Rightarrow> Inl (KeyError step_id)
      | Some node_data \<Rightarrow>
          (let agent_type = (case nd_agent node_data of None \<Rightarrow> [] | Some a \<Rightarrow> a);
               writes = writes_or_empty node_data;
               (gs1, output1) = user_interaction_check env agent_type output (globals_schema c);
               c1 = c\<lparr> globals_schema := gs1 \<rparr>;
               (execution_result, output2) = code_execution_check env c1 node_data output1
           in (case extract_writes env step_id agent_type execution_result output2 writes gs1 of
                 Inl e \<Rightarrow> Inl e
               | Inr gs2 \<Rightarrow>
                   Inr (c1\<lparr> globals_schema := gs2,
                           nodes := AList.update step_id
                             (node_data\<lparr> nd_status := Some Completed, nd_output := Some output2 \<rparr>)
                             (nodes c1) \<rparr>))))"

definition mark_running :: "string \<Rightarrow> ctx \<Rightarrow> error + ctx" where
  "mark_running step_id c =
     (case map_of (nodes c) step_id of
        None \<Rightarrow> Inl (KeyError step_id)
      | Some d \<Rightarrow> Inr (set_status step_id Running c))"

definition mark_failed :: "string \<Rightarrow> string \<Rightarrow> ctx \<Rightarrow> error + ctx" where
  "mark_failed step_id err c =
     (case map_of (nodes c) step_id of
        None \<Rightarrow> Inl (KeyError step_id)
      | Some d \<Rightarrow>
          Inr (c\<lparr> nodes := AList.update step_id
                  (d\<lparr> nd_status := Some Failed,
                     nd_error := (if err = [] then None else Some err) \<rparr>) (nodes c) \<rparr>))"

text \<open>
  \<open>all(nodes[n]['status'] in ['completed', 'failed'] for n in nodes)\<close>: the subscript
  raises at the first node without a \<open>status\<close> attribute that the scan reaches.
\<close>

fun all_done_scan :: "(string \<times> node_data) list \<Rightarrow> error + bool" where
  "all_done_scan [] = Inr True"
| "all_done_scan ((n, d) # rest) =
     (case nd_status d of
        None \<Rightarrow> Inl (KeyError ''status'')
      | Some s \<Rightarrow> (if s \<in> {Completed, Failed} then all_done_scan rest else Inr False))"

definition all_done :: "ctx \<Rightarrow> error + bool" where
  "all_done c = all_done_scan (nodes c)"

section \<open>Construction and the driver loop\<close>

subsection \<open>\<open>ExecutionContextManager.__init__\<close>\<close>

text \<open>
  A node dict of the plan: its \<open>id\<close>, the keys the engine reads, and the names of any
  other keys it carries.  \<open>add_node(node["id"], **node, status='pending', ...)\<close> raises a
  \<open>TypeError\<close> when the dict itself has one of the keyword names.
\<close>

record plan_node =
  pn_id :: string
  pn_agent :: "string option"
  pn_description :: "json option"
  pn_agent_prompt :: "json option"
  pn_reads :: "string list option"
  pn_writes :: "string list option"
  pn_other_keys :: "string list"

record plan =
  plan_nodes :: "plan_node list"
  plan_edges :: "(string \<times> string) list"

definition reserved_keys :: "string list" where
  "reserved_keys = [''status'', ''output'', ''error'', ''cost'', ''start_time'', ''end_time'',
     ''execution_time'']"

definition plan_node_attrs :: "plan_node \<Rightarrow> node_data" where
  "plan_node_attrs pn = \<lparr> nd_agent = pn_agent pn, nd_description = pn_description pn,
     nd_agent_prompt = pn_agent_prompt pn, nd_reads = pn_reads pn, nd_writes = pn_writes pn,
     nd_status = Some Pending, nd_output = Some JNull, nd_error = None,
     nd_final_iteration_output = None \<rparr>"

fun add_plan_nodes :: "plan_node list \<Rightarrow> (string \<times> node_data) list
    \<Rightarrow> error + (string \<times> node_data) list" where
  "add_plan_nodes [] ns = Inr ns"
| "add_plan_nodes (pn # rest) ns =
     (if list_ex (\<lambda>k. k \<in> set reserved_keys) (pn_other_keys pn)
      then Inl (TypeError ''got multiple values for keyword argument'')
      else add_plan_nodes rest (add_node (pn_id pn) (plan_node_attrs pn) ns))"

fun add_edges :: "(string \<times> string) list \<Rightarrow> ctx \<Rightarrow> ctx" where
  "add_edges [] c = c"
| "add_edges ((source, target) # rest) c = add_edges rest (add_edge source target c)"

text \<open>
  The constructor: the \<open>ROOT\<close> node, the plan's nodes, then the plan's edges.  The session
  id and the creation time come from the caller and the clock.
\<close>

definition init_context :: "plan \<Rightarrow> string \<Rightarrow> json \<Rightarrow> json \<Rightarrow> string \<Rightarrow> error + ctx" where
  "init_context plan_graph sid query manifest now =
     (case add_plan_nodes (plan_nodes plan_graph) [(''ROOT'', root_attrs)] of
        Inl e \<Rightarrow> Inl e
      | Inr ns \<Rightarrow>
          Inr (add_edges (plan_edges plan_graph)
                 \<lparr> nodes = ns, edges = [], globals_schema = [], session_id = sid,
                   original_query = query, file_manifest = manifest, created_at = now \<rparr>))"

subsection \<open>\<open>_execute_dag\<close>\<close>

text \<open>\<open>str(exception)\<close>.\<close>

fun error_text :: "error \<Rightarrow> string" where
  "error_text (KeyError k) = [CHR 0x27] @ k @ [CHR 0x27]"
| "error_text (ValueError m) = m"
| "error_text (AttributeError m) = m"
| "error_text (TypeError m) = m"
| "error_text (IndexError m) = m"
| "error_text (OtherError m) = m"

text \<open>\<open>any(nodes[n]['status'] == 'failed' for n in nodes)\<close>.\<close>

fun has_failures_scan :: "(string \<times> node_data) list \<Rightarrow> error + bool" where
  "has_failures_scan [] = Inr False"
| "has_failures_scan ((n, d) # rest) =
     (case nd_status d of
        None \<Rightarrow> Inl (KeyError ''status'')
      | Some s \<Rightarrow> (if s = Failed then Inr True else has_failures_scan rest))"

fun mark_all_running :: "string list \<Rightarrow> ctx \<Rightarrow> error + ctx" where
  "mark_all_running [] c = Inr c"
| "mark_all_running (step_id # rest) c =
     (case mark_running step_id c of Inl e \<Rightarrow> Inl e | Inr c' \<Rightarrow> mark_all_running rest c')"

text \<open>
  \<open>asyncio.gather(*tasks, return_exceptions=True)\<close>.  The steps of a round run
  interleaved at their \<open>await\<close>s; each writes only attributes of its own node, and none
  writes \<open>globals_schema\<close>, so running them one after the other gives the same graph and
  the same results.
\<close>

fun gather :: "collaborators \<Rightarrow> string list \<Rightarrow> ctx \<Rightarrow> ctx \<times> (error + step_result) list" where
  "gather env [] c = (c, [])"
| "gather env (step_id # rest) c =
     (let ex = execute_step (run_agent env) max_iterations step_id c;
          (c', results) = gather env rest (ex_ctx ex)
      in (c', ex_result ex # results))"

text \<open>The loop \<open>for step_id, result in zip(ready_steps, results)\<close>.\<close>

fun process_results :: "collaborators \<Rightarrow> (string \<times> (error + step_result)) list \<Rightarrow> ctx
    \<Rightarrow> error + ctx" where
  "process_results env [] c = Inr c"
| "process_results env ((step_id, result) # rest) c =
     (case (case result of
              Inl exn \<Rightarrow> mark_failed step_id (error_text exn) c
            | Inr r \<Rightarrow>
                (if sr_success r then mark_done env step_id (sr_output r) c
                 else (case sr_error r of
                         None \<Rightarrow> Inl (KeyError ''error'')
                       | Some msg \<Rightarrow> mark_failed step_id msg c))) of
        Inl e \<Rightarrow> Inl e
      | Inr c' \<Rightarrow> process_results env rest c')"

text \<open>
  One pass of the body of the \<open>while\<close> loop: \<open>Stop\<close> is the \<open>break\<close> taken when nothing is
  ready and some node has failed, \<open>Raised\<close> an exception that leaves \<open>_execute_dag\<close>.
\<close>

datatype round_exit = Next ctx | Stop ctx | Raised error

definition dag_round :: "collaborators \<Rightarrow> ctx \<Rightarrow> round_exit" where
  "dag_round env c =
     (let ready_steps = get_ready_steps c
      in if ready_steps = [] then
           (case has_failures_scan (nodes c) of
              Inl e \<Rightarrow> Raised e
            | Inr has_failures \<Rightarrow> (if has_failures then Stop c else Next c))
         else
           (case mark_all_running ready_steps c of
              Inl e \<Rightarrow> Raised e
            | Inr c1 \<Rightarrow>
                (case gather env ready_steps c1 of
                   (c2, results) \<Rightarrow>
                     (case process_results env (zip ready_steps results) c2 of
                        Inl e \<Rightarrow> Raised e
                      | Inr c3 \<Rightarrow> Next c3))))"

text \<open>
  The driver's state: the graph, and the list of the \<open>ready_steps\<close> of every round so
  far (not in the source; it lets the theorems speak of every later ready set).
\<close>

record dag_state =
  dag_ctx :: ctx
  ready_history :: "string list list"

text \<open>\<open>while not context.all_done() and iteration < max_iterations\<close>, from a given \<open>iteration\<close>.\<close>

function dag_loop :: "collaborators \<Rightarrow> nat \<Rightarrow> dag_state \<Rightarrow> error option \<times> dag_state" where
  "dag_loop env iteration s =
     (case all_done (dag_ctx s) of
        Inl e \<Rightarrow> (Some e, s)
      | Inr done \<Rightarrow>
          (if \<not> done \<and> iteration < max_iterations then
             (case dag_round env (dag_ctx s) of
                Raised e \<Rightarrow>
                  (Some e, s\<lparr> ready_history := ready_history s @ [get_ready_steps (dag_ctx s)] \<rparr>)
              | Stop c' \<Rightarrow>
                  (None, \<lparr> dag_ctx = c',
                           ready_history = ready_history s @ [get_ready_steps (dag_ctx s)] \<rparr>)
              | Next c' \<Rightarrow>
                  dag_loop env (Suc iteration)
                    \<lparr> dag_ctx = c',
                      ready_history = ready_history s @ [get_ready_steps (dag_ctx s)] \<rparr>)
           else (None, s)))"
  by pat_completeness auto
termination
  by (relation "measure (\<lambda>(env, iteration, s). max_iterations - iteration)") auto

text \<open>
  What a run of \<open>_execute_dag\<close> leaves: the graph, the ready sets of its rounds, the
  exception that ended it if any, and whether "All tasks completed!" was printed.  When
  a round raises, the graph kept is the one the round started from: the caller re-raises
  and the graph is not returned.
\<close>

record dag_exit =
  final_ctx :: ctx
  rounds :: "string list list"
  raised :: "error option"
  all_tasks_completed :: bool

definition execute_dag :: "collaborators \<Rightarrow> ctx \<Rightarrow> dag_exit" where
  "execute_dag env c =
     (case dag_loop env 0 \<lparr> dag_ctx = c, ready_history = [] \<rparr> of
        (Some e, s) \<Rightarrow>
          \<lparr> final_ctx = dag_ctx s, rounds = ready_history s, raised = Some e,
            all_tasks_completed = False \<rparr>
      | (None, s) \<Rightarrow>
          (case all_done (dag_ctx s) of
             Inl e \<Rightarrow> \<lparr> final_ctx = dag_ctx s, rounds = ready_history s, raised = Some e,
                        all_tasks_completed = False \<rparr>
           | Inr done \<Rightarrow> \<lparr> final_ctx = dag_ctx s, rounds = ready_history s, raised = None,
                           all_tasks_completed = done \<rparr>))"

subsection \<open>Example collaborators and outputs\<close>

text \<open>No worker, no executor, no terminal: every collaborator fails.\<close>

definition quiet :: collaborators where
  "quiet = \<lparr> run_agent = (\<lambda>agent_type agent_input. Failure ''down''),
     run_user_code = (\<lambda>code_key code output gs reads_data. Inl (OtherError ''no executor'')),
     ask_choice = (\<lambda>message n. Inl (OtherError ''no terminal'')),
     ask_response = (\<lambda>message. Inl (OtherError ''no terminal'')),
     json_loads = (\<lambda>s. None) \<rparr>"

text \<open>An executor whose run of any code returns \<open>{"status": "success", "result": {"z": 42}}\<close>.\<close>

definition code_runner :: collaborators where
  "code_runner = quiet\<lparr> run_user_code := (\<lambda>code_key code output gs reads_data.
     Inr (JDict [(''status'', JStr ''success''), (''result'', JDict [(''z'', JInt 42)])])) \<rparr>"

text \<open>The worker output of scenario B, and an output that carries code to run.\<close>

definition scenario_b :: json where
  "scenario_b = JDict [(''execution_result'',
      JDict [(''status'', JStr ''success''), (''result'', JDict [(''z'', JInt 42)])])]"

definition code_output :: json where
  "code_output = JDict [(''code_variants'', JDict [(''CODE_1A'', JStr ''z = 6 * 7'')])]"

text \<open>An executor whose result dict starts with an empty value: \<open>{"a": "", "b": 5}\<close>.\<close>

definition code_runner_ab :: collaborators where
  "code_runner_ab = quiet\<lparr> run_user_code := (\<lambda>code_key code output gs reads_data.
     Inr (JDict [(''status'', JStr ''success''),
                 (''result'', JDict [(''a'', JStr []), (''b'', JInt 5)])])) \<rparr>"

text \<open>A clarification step, and the output with which it asks the user to choose.\<close>

definition clarification_fields :: pydict where
  "clarification_fields = [(''clarificationMessage'', JStr ''Which one?''),
     (''options'', JList [JStr ''left'', JStr ''right'']),
     (''writes_to'', JStr ''user_choice'')]"

definition asking_step :: node_data where
  "asking_step = no_attrs\<lparr> nd_agent := Some ''ClarificationAgent'',
     nd_description := Some (JStr ''ask the user''), nd_reads := Some [],
     nd_writes := Some [''user_choice''], nd_status := Some Running,
     nd_output := Some JNull \<rparr>"

definition asking :: ctx where
  "asking = \<lparr> nodes = [(''ROOT'', root_attrs), (''Q1'', asking_step)], edges = [],
     globals_schema = [], session_id = ''s1'', original_query = JStr ''q'',
     file_manifest = JList [], created_at = ''t0'' \<rparr>"

text \<open>
  A terminal at which the user answers \<open>left\<close>, and a clarification output that names
  \<open>null\<close> as the key to write the answer to.
\<close>

definition answering :: collaborators where
  "answering = quiet\<lparr> ask_response := (\<lambda>message. Inr ''left'') \<rparr>"

definition null_target :: pydict where
  "null_target = [(''clarificationMessage'', JStr ''Which one?''), (''writes_to'', JNull)]"

text \<open>Two malformed plans: a cycle between \<open>A\<close> and \<open>B\<close>, and an edge to an unknown \<open>X\<close>.\<close>

definition plain_plan_node :: "string \<Rightarrow> plan_node" where
  "plain_plan_node n = \<lparr> pn_id = n, pn_agent = Some ''CoderAgent'',
     pn_description = Some (JStr ''work''), pn_agent_prompt = None, pn_reads = Some [],
     pn_writes = Some [], pn_other_keys = [] \<rparr>"

definition cyclic_plan :: plan where
  "cyclic_plan = \<lparr> plan_nodes = [plain_plan_node ''A'', plain_plan_node ''B''],
     plan_edges = [(''A'', ''B''), (''B'', ''A'')] \<rparr>"

definition dangling_plan :: plan where
  "dangling_plan = \<lparr> plan_nodes = [plain_plan_node ''A''],
     plan_edges = [(''A'', ''X'')] \<rparr>"

subsection \<open>What a round may touch\<close>

text \<open>
  \<open>same_elsewhere S c c'\<close>: from \<open>c\<close> to \<open>c'\<close> the edges are the same and only nodes in
  \<open>S\<close> may have changed.  Every operation of a round on a step satisfies it for that step.
\<close>

definition same_elsewhere :: "string set \<Rightarrow> ctx \<Rightarrow> ctx \<Rightarrow> bool" where
  "same_elsewhere S c c' =
     (edges c' = edges c \<and> (\<forall>m. m \<notin> S \<longrightarrow> map_of (nodes c') m = map_of (nodes c) m))"

text \<open>A run that starts with one node whose worker call raises, and a node that waits for it.\<close>

definition unknown_agent :: collaborators where
  "unknown_agent = quiet\<lparr> run_agent := (\<lambda>agent_type agent_input.
     Raises (ValueError ''Unknown agent type'')) \<rparr>"

definition chain_plan :: plan where
  "chain_plan = \<lparr> plan_nodes = [plain_plan_node ''E'', plain_plan_node ''F''],
     plan_edges = [(''E'', ''F'')] \<rparr>"

definition chain :: ctx where
  "chain = \<lparr> nodes = [(''ROOT'', root_attrs),
       (''E'', plan_node_attrs (plain_plan_node ''E'')),
       (''F'', plan_node_attrs (plain_plan_node ''F''))],
     edges = [(''E'', ''F'')], globals_schema = [], session_id = ''s1'',
     original_query = JStr ''q'', file_manifest = JList [], created_at = ''t0'' \<rparr>"

text \<open>A plan of one step that declares the write \<open>z\<close>, and workers that fail on it.\<close>

definition single_plan :: plan where
  "single_plan = \<lparr> plan_nodes = [\<lparr> pn_id = ''T1'', pn_agent = Some ''CoderAgent'',
       pn_description = Some (JStr ''build it''), pn_agent_prompt = None,
       pn_reads = Some [], pn_writes = Some [''z''], pn_other_keys = [] \<rparr>],
     plan_edges = [] \<rparr>"

definition single :: ctx where
  "single = \<lparr> nodes = [(''ROOT'', root_attrs), (''T1'', coder_step\<lparr> nd_status := Some Pending \<rparr>)],
     edges = [], globals_schema = [], session_id = ''s1'', original_query = JStr ''q'',
     file_manifest = JList [], created_at = ''t0'' \<rparr>"

text \<open>
  A worker that succeeds once, asking to be called again, and fails when it is called
  with a previous output.
\<close>

definition flaky_worker :: agent_runner where
  "flaky_worker agent_type agent_input =
     (if ai_previous_output agent_input = None
      then Success (JDict [(''call_self'', JBool True), (''z'', JInt 1)])
      else Failure ''down'')"

definition flaky :: collaborators where
  "flaky = quiet\<lparr> run_agent := flaky_worker \<rparr>"

text \<open>The chain after \<open>E\<close> has failed: \<open>F\<close> is still pending.\<close>

definition stalled :: ctx where
  "stalled = chain\<lparr> nodes := [(''ROOT'', root_attrs),
       (''E'', (plan_node_attrs (plain_plan_node ''E''))\<lparr> nd_status := Some Failed \<rparr>),
       (''F'', plan_node_attrs (plain_plan_node ''F''))] \<rparr>"

section \<open>Ready detection\<close>

lemma is_ready_iff:
  "is_ready c n \<longleftrightarrow>
     n \<noteq> ''ROOT'' \<and> status_of c n \<notin> {Completed, Failed, Running}
     \<and> (\<forall>p \<in> set (predecessors c n). status_of c p = Completed)"
  by (simp add: is_ready_def all_deps_complete_def list_all_iff)

text \<open>
  Claim C1.  For every status snapshot, \<open>get_ready_steps\<close> returns exactly the graph
  nodes other than the synthetic root whose status is none of completed, failed and
  running and whose every predecessor is completed; in particular a pending node without
  predecessors is returned.
\<close>

theorem get_ready_steps_exact:
  "set (get_ready_steps c) =
     {n \<in> set (map fst (nodes c)).
        n \<noteq> ''ROOT'' \<and> status_of c n \<notin> {Completed, Failed, Running}
        \<and> (\<forall>p \<in> set (predecessors c n). status_of c p = Completed)}
   \<and> (\<forall>n \<in> set (map fst (nodes c)).
        n \<noteq> ''ROOT'' \<and> status_of c n = Pending \<and> predecessors c n = []
        \<longrightarrow> n \<in> set (get_ready_steps c))"
proof (intro conjI ballI impI)
  show "set (get_ready_steps c) =
     {n \<in> set (map fst (nodes c)).
        n \<noteq> ''ROOT'' \<and> status_of c n \<notin> {Completed, Failed, Running}
        \<and> (\<forall>p \<in> set (predecessors c n). status_of c p = Completed)}"
    unfolding get_ready_steps_def by (auto simp: is_ready_iff)
next
  fix n
  assume "n \<in> set (map fst (nodes c))"
    and "n \<noteq> ''ROOT'' \<and> status_of c n = Pending \<and> predecessors c n = []"
  then show "n \<in> set (get_ready_steps c)"
    unfolding get_ready_steps_def by (simp add: is_ready_iff)
qed

theorem get_ready_steps_exact_witness:
  "get_ready_steps diamond = [''B'', ''E'']
   \<and> {n \<in> set (map fst (nodes diamond)).
        n \<noteq> ''ROOT'' \<and> status_of diamond n \<notin> {Completed, Failed, Running}
        \<and> (\<forall>p \<in> set (predecessors diamond n). status_of diamond p = Completed)}
       = {''B'', ''E''}"
proof -
  have e: "get_ready_steps diamond = [''B'', ''E'']"
    by (simp add: get_ready_steps_def is_ready_def all_deps_complete_def status_of_def
        predecessors_def diamond_def plain_node_def no_attrs_def)
  from get_ready_steps_exact [of diamond]
  have "set (get_ready_steps diamond) =
     {n \<in> set (map fst (nodes diamond)).
        n \<noteq> ''ROOT'' \<and> status_of diamond n \<notin> {Completed, Failed, Running}
        \<and> (\<forall>p \<in> set (predecessors diamond n). status_of diamond p = Completed)}"
    by (rule conjunct1)
  with e show ?thesis by simp
qed

section \<open>Step inputs\<close>

lemma get_inputs_loop_names:
  assumes "\<forall>key \<in> fst ` set gs. is_name key"
  shows "\<exists>r. get_inputs_loop gs rs inputs = Inr r
     \<and> (\<forall>k. map_of r k =
           (if k \<in> set rs \<and> map_of gs (Name k) \<noteq> None then map_of gs (Name k)
            else map_of inputs k))"
proof (induction rs arbitrary: inputs)
  case Nil
  show ?case by simp
next
  case (Cons r rs)
  have names: "\<not> list_ex (\<lambda>key. \<not> is_name key) (map fst gs)"
    using assms by (auto simp: list_ex_iff)
  show ?case
  proof (cases "map_of gs (Name r)")
    case None
    with names Cons.IH [of inputs] show ?thesis by auto
  next
    case (Some v)
    with Cons.IH [of "AList.update r v inputs"] show ?thesis
      by (auto simp: update_conv')
  qed
qed

text \<open>
  While every key of the store is a string, \<open>get_inputs\<close> returns the store restricted to
  the requested keys: a requested key that the store lacks is left out, with no error and
  no default.
\<close>

lemma get_inputs_string_keys:
  assumes "\<forall>key \<in> fst ` set (globals_schema c). is_name key"
  shows "\<exists>inputs. get_inputs c rs = Inr inputs
     \<and> (\<forall>k. map_of inputs k = (if k \<in> set rs then map_of (globals_schema c) (Name k) else None))"
proof -
  from get_inputs_loop_names [OF assms, of rs "[]"]
  obtain r where "get_inputs_loop (globals_schema c) rs [] = Inr r"
    and "\<forall>k. map_of r k =
           (if k \<in> set rs \<and> map_of (globals_schema c) (Name k) \<noteq> None
            then map_of (globals_schema c) (Name k) else map_of [] k)"
    by blast
  then show ?thesis by (auto simp: get_inputs_def)
qed

text \<open>
  Claim C10 says that a requested key absent from the store is silently omitted and no
  error is raised.  The code at the following input does otherwise.  A clarification
  step's output names \<open>null\<close> as its \<open>writes_to\<close>; the user answers \<open>left\<close>, and \<open>mark_done\<close>
  stores the answer under the key \<open>None\<close>.  For a later step that reads \<open>x\<close>, which the
  store lacks, the missing-key diagnostic of \<open>get_inputs\<close> calls \<open>.lower()\<close> on every key
  of the store and raises \<open>AttributeError\<close> at the key \<open>None\<close>.  A read that the store
  holds is still returned.
\<close>

theorem missing_read_diagnostic_raises:
  "(case mark_done answering ''Q1'' (JDict null_target) asking of
      Inl e \<Rightarrow> None
    | Inr c' \<Rightarrow> Some (globals_schema c', get_inputs c' [''x''],
                      get_inputs c' [''user_choice'']))
   = Some ([(NoneKey, JStr ''left''), (Name ''user_choice'', JStr ''Which one?'')],
           Inl (AttributeError ''lower''),
           Inr [(''user_choice'', JStr ''Which one?'')])"
  by (simp add: mark_done_def user_interaction_check_def is_clarification_request_def
      code_execution_check_def has_executable_code_def writes_or_empty_def startswith_def
      handle_user_interaction_rich_def Let_def extract_write_def earlier_strategies_def
      from_output_def emergency_fallback_def stored_value_def dict_get_def get_inputs_def
      answering_def quiet_def null_target_def asking_def asking_step_def root_attrs_def
      no_attrs_def)

section \<open>The self-iteration loop\<close>

declare iteration_loop.simps [simp del]

lemma say_fields [simp]:
  "current_iteration (say e s) = current_iteration s"
  "current_output (say e s) = current_output s"
  "invocations (say e s) = invocations s"
  "printed (say e s) = printed s @ [e]"
  "loop_ctx (say e s) = loop_ctx s"
  by (simp_all add: say_def)

lemma invoked_fields [simp]:
  "current_iteration (invoked i r s) = current_iteration s"
  "current_output (invoked i r s) = current_output s"
  "invocations (invoked i r s) = invocations s @ [(i, r)]"
  "printed (invoked i r s) = printed s"
  "loop_ctx (invoked i r s) = loop_ctx s"
  by (simp_all add: invoked_def)

lemma store_output_fields [simp]:
  "current_iteration (store_output sid out s) = Suc (current_iteration s)"
  "current_output (store_output sid out s) = out"
  "invocations (store_output sid out s) = invocations s"
  "printed (store_output sid out s) = printed s"
  "loop_ctx (store_output sid out s) = set_step_output (loop_ctx s) sid out"
  by (simp_all add: store_output_def)

lemma adopt_fields [simp]:
  "current_iteration (adopt d s) = current_iteration s"
  "current_output (adopt d s) = current_output s"
  "invocations (adopt d s) = invocations s"
  "printed (adopt d s) = printed s"
  "loop_ctx (adopt d s) = loop_ctx s"
  by (simp_all add: adopt_def)









section \<open>Extraction of step outputs\<close>

lemmas extraction_defs = extract_write_def earlier_strategies_def from_execution_result_def
  from_output_def from_formatter_def emergency_fallback_def stored_value_def dict_get_def
  content_shape_of_def

lemmas mark_done_defs = mark_done_def user_interaction_check_def is_clarification_request_def
  code_execution_check_def has_executable_code_def auto_execute_code_def
  extract_executable_code_def merge_execution_results_def reads_data_of_def
  writes_or_empty_def reads_or_empty_def startswith_def List.map_filter_def

lemmas example_defs = one_step_def coder_step_def root_attrs_def no_attrs_def quiet_def
  code_output_def

text \<open>
  Claim C5, as stated, fails.  For the worker output
  \<open>{execution_result: {status: "success", result: {z: 42}}}\<close> no code is run, so the
  \<open>execution_result\<close> that strategy 1 reads is \<open>None\<close>; the output has no key \<open>z\<close>, its
  \<open>execution_result\<close> entry has no key \<open>z\<close> either, and the emergency fallback binds \<open>z\<close>
  to the first truthy value of the output, the whole nested dict.
\<close>

theorem scenario_b_counterexample:
  "extract_write quiet ''T1'' ''CoderAgent'' None scenario_b ''z''
     = Inr (JDict [(''status'', JStr ''success''), (''result'', JDict [(''z'', JInt 42)])],
            Output_fallback ''execution_result'')
   \<and> (case mark_done quiet ''T1'' scenario_b one_step of
         Inl e \<Rightarrow> None
       | Inr c \<Rightarrow> map_of (globals_schema c) (Name ''z''))
       = Some (JDict [(''status'', JStr ''success''), (''result'', JDict [(''z'', JInt 42)])])"
  by (simp add: mark_done_defs extraction_defs example_defs scenario_b_def)

text \<open>
  Claim C5, amended.  When the result of running the step's code (the \<open>execution_result\<close>
  that \<open>mark_done\<close> obtains from \<open>_auto_execute_code\<close>) has status \<open>"success"\<close> and a result
  dict that binds the write key to an integer, extraction stores that integer by the
  direct match of strategy 1, whatever the worker output is.
\<close>

theorem execution_result_direct_match:
  assumes "map_of er ''status'' = Some (JStr ''success'')"
    and "map_of er ''result'' = Some (JDict rd)"
    and "map_of rd k = Some (JInt n)"
  shows "extract_write env step_id agent_type (Some er) output k = Inr (JInt n, Direct)
    \<and> extract_writes env step_id agent_type (Some er) output [k] gs
        = Inr (AList.update (Name k) (JInt n) gs)"
proof -
  from assms(1) have "er \<noteq> []" by auto
  moreover from assms(3) have "rd \<noteq> []" by auto
  ultimately have "extract_write env step_id agent_type (Some er) output k
      = Inr (JInt n, Direct)"
    using assms by (simp add: extraction_defs)
  then show ?thesis by simp
qed

theorem execution_result_direct_match_witness:
  "extract_write code_runner ''T1'' ''CoderAgent''
      (Some [(''status'', JStr ''success''), (''result'', JDict [(''z'', JInt 42)]),
             (''executed_variant'', JStr ''CODE_1A'')])
      code_output ''z'' = Inr (JInt 42, Direct)
   \<and> (case mark_done code_runner ''T1'' code_output one_step of
         Inl e \<Rightarrow> None
       | Inr c \<Rightarrow> map_of (globals_schema c) (Name ''z'')) = Some (JInt 42)"
proof -
  have "(case mark_done code_runner ''T1'' code_output one_step of
         Inl e \<Rightarrow> None
       | Inr c \<Rightarrow> map_of (globals_schema c) (Name ''z'')) = Some (JInt 42)"
    by (simp add: mark_done_defs extraction_defs example_defs code_runner_def)
  then show ?thesis
    using execution_result_direct_match
      [of "[(''status'', JStr ''success''), (''result'', JDict [(''z'', JInt 42)]),
            (''executed_variant'', JStr ''CODE_1A'')]"
          "[(''z'', JInt 42)]" "''z''" 42 code_runner "''T1''" "''CoderAgent''" code_output "[]"]
    by simp
qed

lemma extract_writes_other:
  "extract_writes env sid agt er out ws gs = Inr gs' \<Longrightarrow> key \<notin> Name ` set ws \<Longrightarrow>
     map_of gs' key = map_of gs key"
proof (induction ws arbitrary: gs)
  case Nil
  then show ?case by simp
next
  case (Cons w ws)
  then show ?case
    by (auto simp: update_conv' split: sum.splits prod.splits)
qed

lemma extract_writes_written:
  "extract_writes env sid agt er out ws gs = Inr gs' \<Longrightarrow> k \<in> set ws \<Longrightarrow>
     \<exists>v h. extract_write env sid agt er out k = Inr (v, h) \<and> map_of gs' (Name k) = Some v"
proof (induction ws arbitrary: gs)
  case Nil
  then show ?case by simp
next
  case (Cons w ws)
  from Cons.prems(1) obtain v h where
    w: "extract_write env sid agt er out w = Inr (v, h)"
    and rest: "extract_writes env sid agt er out ws (AList.update (Name w) v gs) = Inr gs'"
    by (auto split: sum.splits prod.splits)
  show ?case
  proof (cases "k \<in> set ws")
    case True
    with rest show ?thesis by (rule Cons.IH)
  next
    case False
    with Cons.prems(2) have kw: "k = w" by simp
    from False have "Name k \<notin> Name ` set ws" by auto
    from extract_writes_other [OF rest this]
    have "map_of gs' (Name k) = Some v" by (simp add: kw update_conv')
    with w kw show ?thesis by simp
  qed
qed

lemma extract_writes_settled:
  "(\<forall>k \<in> set ws. \<exists>v h. extract_write env sid agt er out k = Inr (v, h)
        \<and> map_of g (Name k) = Some v) \<Longrightarrow>
     extract_writes env sid agt er out ws g = Inr g"
proof (induction ws)
  case Nil
  then show ?case by simp
next
  case (Cons w ws)
  then obtain v h where w: "extract_write env sid agt er out w = Inr (v, h)"
    and m: "map_of g (Name w) = Some v" by auto
  from m have "AList.update (Name w) v g = g" by (rule update_triv)
  with w Cons show ?case by simp
qed

text \<open>
  Claim C9.  Extraction is a function of the output, the execution result and the write
  keys: it never reads the store it writes.  Running it again on the store it produced
  returns that same store, and the values it binds are the same from any starting store.
\<close>

theorem extraction_idempotent:
  "(extract_writes env sid agt er out ws gs = Inr gs'
      \<longrightarrow> extract_writes env sid agt er out ws gs' = Inr gs')
   \<and> (extract_writes env sid agt er out ws gs1 = Inr gs1'
      \<and> extract_writes env sid agt er out ws gs2 = Inr gs2'
      \<longrightarrow> (\<forall>k \<in> set ws. map_of gs1' (Name k) = map_of gs2' (Name k)))"
proof (intro conjI impI ballI)
  assume a: "extract_writes env sid agt er out ws gs = Inr gs'"
  show "extract_writes env sid agt er out ws gs' = Inr gs'"
    by (rule extract_writes_settled) (use extract_writes_written [OF a] in blast)
next
  fix k
  assume a: "extract_writes env sid agt er out ws gs1 = Inr gs1'
      \<and> extract_writes env sid agt er out ws gs2 = Inr gs2'" and k: "k \<in> set ws"
  from a k extract_writes_written [of env sid agt er out ws gs1 gs1' k]
    extract_writes_written [of env sid agt er out ws gs2 gs2' k]
  show "map_of gs1' (Name k) = map_of gs2' (Name k)" by auto
qed

theorem extraction_idempotent_witness:
  "extract_writes code_runner ''T1'' ''CoderAgent''
      (Some [(''status'', JStr ''success''), (''result'', JDict [(''z'', JInt 42)])])
      code_output [''z'', ''w''] [(Name ''w'', JInt 0)]
     = Inr [(Name ''w'', JInt 42), (Name ''z'', JInt 42)]
   \<and> extract_writes code_runner ''T1'' ''CoderAgent''
      (Some [(''status'', JStr ''success''), (''result'', JDict [(''z'', JInt 42)])])
      code_output [''z'', ''w''] [(Name ''w'', JInt 42), (Name ''z'', JInt 42)]
     = Inr [(Name ''w'', JInt 42), (Name ''z'', JInt 42)]"
proof -
  have first: "extract_writes code_runner ''T1'' ''CoderAgent''
      (Some [(''status'', JStr ''success''), (''result'', JDict [(''z'', JInt 42)])])
      code_output [''z'', ''w''] [(Name ''w'', JInt 0)]
     = Inr [(Name ''w'', JInt 42), (Name ''z'', JInt 42)]"
    by (simp add: extraction_defs example_defs code_runner_def)
  from extraction_idempotent
    [of code_runner "''T1''" "''CoderAgent''"
        "Some [(''status'', JStr ''success''), (''result'', JDict [(''z'', JInt 42)])]"
        code_output "[''z'', ''w'']" "[(Name ''w'', JInt 0)]" "[(Name ''w'', JInt 42), (Name ''z'', JInt 42)]"]
  have "extract_writes code_runner ''T1'' ''CoderAgent''
      (Some [(''status'', JStr ''success''), (''result'', JDict [(''z'', JInt 42)])])
      code_output [''z'', ''w''] [(Name ''w'', JInt 0)]
     = Inr [(Name ''w'', JInt 42), (Name ''z'', JInt 42)]
    \<longrightarrow> extract_writes code_runner ''T1'' ''CoderAgent''
      (Some [(''status'', JStr ''success''), (''result'', JDict [(''z'', JInt 42)])])
      code_output [''z'', ''w''] [(Name ''w'', JInt 42), (Name ''z'', JInt 42)]
     = Inr [(Name ''w'', JInt 42), (Name ''z'', JInt 42)]"
    by (rule conjunct1)
  with first show ?thesis by simp
qed

lemma first_item_append:
  "\<forall>(k', v') \<in> set pre. \<not> truthy v' \<Longrightarrow> truthy v \<Longrightarrow>
     first_item (\<lambda>key. True) (pre @ (key, v) # post) = Some (key, v)"
  by (induction pre) auto

lemma first_item_none:
  "\<forall>(k', v') \<in> set d. \<not> truthy v' \<Longrightarrow> first_item (\<lambda>key. True) d = None"
  by (induction d) auto

lemma truthy_stored: "truthy v \<Longrightarrow> stored_value v = v"
  by (cases v) (simp_all add: stored_value_def)

lemma emergency_fallback_total:
  assumes "out = JNull \<or> is_dict out"
    and "\<forall>e. er = Some e \<longrightarrow> is_dict (dict_get e ''result'' (JDict []))"
  shows "\<exists>v h. emergency_fallback er out = Inr (v, h)"
  using assms
  by (auto simp: emergency_fallback_def split: option.splits json.splits list.splits prod.splits)

lemma has_executable_code_update:
  assumes "k \<notin> {''code_variants'', ''tool_calls'', ''schedule_tool'', ''browser_commands'',
      ''python_code''}" and "\<not> startswith k ''CODE_''"
  shows "has_executable_code (JDict (AList.update k v d)) = has_executable_code (JDict d)"
proof -
  have "(\<exists>x \<in> set (AList.update k v d). startswith (fst x) ''CODE_'')
      = (\<exists>y \<in> fst ` set (AList.update k v d). startswith y ''CODE_'')"
    by blast
  also have "\<dots> = (\<exists>y \<in> {k} \<union> fst ` set d. startswith y ''CODE_'')"
    by (simp only: dom_update)
  also have "\<dots> = (\<exists>x \<in> set d. startswith (fst x) ''CODE_'')"
    using assms(2) by blast
  finally have keys: "(\<exists>x \<in> set (AList.update k v d). startswith (fst x) ''CODE_'')
      = (\<exists>x \<in> set d. startswith (fst x) ''CODE_'')" .
  show ?thesis using assms(1)
    by (auto simp add: has_executable_code_def update_conv' list_ex_iff keys)
qed

lemma user_interaction_check_shape:
  assumes "user_interaction_check env agt out gs = (gs1, out1)"
    and "out = JNull \<or> is_dict out" and "\<not> has_executable_code out"
  shows "(out1 = JNull \<or> is_dict out1) \<and> \<not> has_executable_code out1"
proof -
  have a: "\<And>d u. out = JDict d \<Longrightarrow>
     \<not> has_executable_code (JDict (AList.update ''interaction_completed'' (JBool True)
          (AList.update ''user_response'' u d)))"
    using assms(3) by (simp add: has_executable_code_update startswith_def)
  show ?thesis
  proof (cases "is_clarification_request agt out")
    case False
    with assms show ?thesis by (simp add: user_interaction_check_def)
  next
    case True
    then obtain d where d: "out = JDict d"
      by (cases out) (simp_all add: is_clarification_request_def)
    have "out1 = out \<or> (\<exists>u. out1 = JDict (AList.update ''interaction_completed'' (JBool True)
          (AList.update ''user_response'' u d)))"
      using assms(1) True unfolding d user_interaction_check_def
      by (simp split: sum.splits) blast+
    with assms(2,3) a [OF d] show ?thesis by auto
  qed
qed

lemma extract_write_no_result:
  assumes "out = JNull \<or> is_dict out"
  shows "\<exists>v h. extract_write env sid agt None out k = Inr (v, h)"
proof -
  have e: "\<exists>v h. emergency_fallback None out = Inr (v, h)"
    using assms by (intro emergency_fallback_total) auto
  from assms show ?thesis
  proof
    assume "out = JNull"
    with e show ?thesis by (simp add: extract_write_def earlier_strategies_def)
  next
    assume "is_dict out"
    then obtain d where d: "out = JDict d" by (cases out) auto
    have "\<exists>r. earlier_strategies env sid agt None out k = Inr r"
      unfolding d by (simp add: earlier_strategies_def split: option.splits)
    then obtain r where r: "earlier_strategies env sid agt None out k = Inr r" by blast
    show ?thesis using e r by (cases r) (auto simp: extract_write_def)
  qed
qed

lemma extract_writes_total:
  "(\<forall>k \<in> set ws. \<exists>v h. extract_write env sid agt er out k = Inr (v, h)) \<Longrightarrow>
     \<exists>gs'. extract_writes env sid agt er out ws gs = Inr gs'"
proof (induction ws arbitrary: gs)
  case Nil
  show ?case by simp
next
  case (Cons w ws)
  then obtain v h where "extract_write env sid agt er out w = Inr (v, h)" by auto
  with Cons show ?case by simp
qed

lemma mark_done_status:
  "mark_done env sid out c = Inr c' \<Longrightarrow> status_of c' sid = Completed"
  by (auto simp: mark_done_def Let_def status_of_def update_conv'
      split: option.splits prod.splits sum.splits)

lemma mark_done_no_code:
  assumes node: "map_of (nodes c) sid = Some nd"
    and nocode: "\<not> has_executable_code out"
    and shape: "out = JNull \<or> is_dict out"
  shows "\<exists>c'. mark_done env sid out c = Inr c' \<and> status_of c' sid = Completed
      \<and> (\<forall>w \<in> set (writes_or_empty nd). map_of (globals_schema c') (Name w) \<noteq> None)"
proof -
  let ?agt = "case nd_agent nd of None \<Rightarrow> [] | Some a \<Rightarrow> a"
  obtain gs1 out1 where u: "user_interaction_check env ?agt out (globals_schema c) = (gs1, out1)"
    by (cases "user_interaction_check env ?agt out (globals_schema c)") auto
  from user_interaction_check_shape [OF u shape nocode]
  have s1: "out1 = JNull \<or> is_dict out1" and n1: "\<not> has_executable_code out1" by auto
  have ce: "code_execution_check env (c\<lparr>globals_schema := gs1\<rparr>) nd out1 = (None, out1)"
    using n1 by (simp add: code_execution_check_def)
  obtain gs2 where x: "extract_writes env sid ?agt None out1 (writes_or_empty nd) gs1 = Inr gs2"
    using extract_writes_total [of "writes_or_empty nd" env sid ?agt None out1 gs1]
      extract_write_no_result [OF s1] by blast
  have md: "mark_done env sid out c = Inr (c\<lparr>globals_schema := gs2,
      nodes := AList.update sid (nd\<lparr>nd_status := Some Completed, nd_output := Some out1\<rparr>) (nodes c)\<rparr>)"
    using node u ce x by (simp add: mark_done_def Let_def)
  have "\<forall>w \<in> set (writes_or_empty nd). map_of gs2 (Name w) \<noteq> None"
    using extract_writes_written [OF x] by auto
  with md mark_done_status [OF md] show ?thesis by simp
qed


lemma emergency_fallback_first_key:
  assumes "out = JNull \<or> is_dict out"
    and "map_of e ''result'' = Some (JDict ((fk, v) # rest))" and "fk \<noteq> []"
  shows "emergency_fallback (Some e) out = Inr (stored_value v, Fallback fk)"
  using assms by (auto simp: emergency_fallback_def dict_get_def)

lemma emergency_fallback_no_entry:
  assumes "out = JNull \<or> is_dict out"
    and "\<forall>e. er = Some e \<longrightarrow> is_dict (dict_get e ''result'' (JDict []))"
    and "\<forall>e fk v rest. er = Some e \<and> map_of e ''result'' = Some (JDict ((fk, v) # rest))
           \<longrightarrow> fk = []"
  shows "emergency_fallback er out =
     (case (case out of JDict d \<Rightarrow> first_item (\<lambda>key. True) d | _ \<Rightarrow> None) of
        Some (key, v) \<Rightarrow> Inr (stored_value v, Output_fallback key)
      | None \<Rightarrow> Inr (JList [], Empty_list_last_resort))"
proof (cases er)
  case None
  with assms(1) show ?thesis by (auto simp: emergency_fallback_def)
next
  case (Some e)
  with assms(2) have d: "is_dict (dict_get e ''result'' (JDict []))" by simp
  have "(case dict_get e ''result'' JNull of
           JDict ((first_key, fallback_value) # rest) \<Rightarrow>
             (if first_key \<noteq> [] then Some (stored_value fallback_value, Fallback first_key)
              else None)
         | _ \<Rightarrow> None) = None"
    using assms(3) Some
    by (auto simp: dict_get_def split: option.splits json.splits list.splits)
  with Some d assms(1) show ?thesis by (auto simp: emergency_fallback_def)
qed

text \<open>
  Claim C6, as stated, fails.  The code run for the step returned the result
  \<open>{"a": "", "b": 5}\<close>, and the step declares the write \<open>z\<close>, which no strategy finds.  The
  emergency fallback takes the value under the first key of the result, the empty string,
  although the result holds the non-empty value 5.
\<close>

theorem first_key_fallback_counterexample:
  "extract_write code_runner_ab ''T1'' ''CoderAgent''
      (Some [(''status'', JStr ''success''),
             (''result'', JDict [(''a'', JStr []), (''b'', JInt 5)]),
             (''executed_variant'', JStr ''CODE_1A'')])
      (JDict [(''a'', JStr []), (''b'', JInt 5)]) ''z''
     = Inr (JStr [], Fallback ''a'')
   \<and> (case mark_done code_runner_ab ''T1'' code_output one_step of
         Inl e \<Rightarrow> None
       | Inr c \<Rightarrow> map_of (globals_schema c) (Name ''z'')) = Some (JStr [])"
  by (simp add: mark_done_defs extraction_defs example_defs code_runner_ab_def)

text \<open>
  Claim C6, amended.  For a write key for which no earlier strategy produced a value,
  with an output that is \<open>None\<close> or a dict and an execution result whose \<open>result\<close> is
  absent or a dict, the emergency fallback raises nothing and
  \<^item> stores the value under the first key of the result dict, whether that value is empty
    or not, when the result is a non-empty dict whose first key is a non-empty string;
  \<^item> else stores the first truthy top-level value of the output dict;
  \<^item> else stores the empty list, with the "last resort" line printed.
  A step whose output is \<open>None\<close> or a dict without executable code always completes:
  \<open>mark_done\<close> returns with status completed and every declared write key bound.
\<close>

theorem emergency_fallback_cases:
  "(earlier_strategies env sid agt er out k = Inr None
     \<and> (out = JNull \<or> is_dict out)
     \<and> (\<forall>e. er = Some e \<longrightarrow> is_dict (dict_get e ''result'' (JDict [])))
    \<longrightarrow> (\<exists>v h. extract_write env sid agt er out k = Inr (v, h))
      \<and> (\<forall>e fk v rest.
            er = Some e \<and> map_of e ''result'' = Some (JDict ((fk, v) # rest)) \<and> fk \<noteq> []
            \<longrightarrow> extract_write env sid agt er out k = Inr (stored_value v, Fallback fk))
      \<and> ((\<forall>e fk v rest.
             er = Some e \<and> map_of e ''result'' = Some (JDict ((fk, v) # rest)) \<longrightarrow> fk = [])
          \<longrightarrow> (\<forall>pre key v post.
                 out = JDict (pre @ (key, v) # post) \<and> (\<forall>(k', v') \<in> set pre. \<not> truthy v')
                 \<and> truthy v
                 \<longrightarrow> extract_write env sid agt er out k = Inr (v, Output_fallback key))
            \<and> (out = JNull \<or> (\<exists>d. out = JDict d \<and> (\<forall>(k', v') \<in> set d. \<not> truthy v'))
                 \<longrightarrow> extract_write env sid agt er out k
                       = Inr (JList [], Empty_list_last_resort))))
   \<and> (map_of (nodes c) sid = Some nd \<and> \<not> has_executable_code out
       \<and> (out = JNull \<or> is_dict out)
      \<longrightarrow> (\<exists>c'. mark_done env sid out c = Inr c' \<and> status_of c' sid = Completed
             \<and> (\<forall>w \<in> set (writes_or_empty nd). map_of (globals_schema c') (Name w) \<noteq> None)))"
proof (intro conjI impI)
  assume h: "earlier_strategies env sid agt er out k = Inr None
     \<and> (out = JNull \<or> is_dict out)
     \<and> (\<forall>e. er = Some e \<longrightarrow> is_dict (dict_get e ''result'' (JDict [])))"
  then have ew: "extract_write env sid agt er out k = emergency_fallback er out"
    by (simp add: extract_write_def)
  from h have shape: "out = JNull \<or> is_dict out"
    and ershape: "\<forall>e. er = Some e \<longrightarrow> is_dict (dict_get e ''result'' (JDict []))" by auto
  show "\<exists>v h. extract_write env sid agt er out k = Inr (v, h)"
    unfolding ew using shape ershape by (rule emergency_fallback_total)
  show "\<forall>e fk v rest.
            er = Some e \<and> map_of e ''result'' = Some (JDict ((fk, v) # rest)) \<and> fk \<noteq> []
            \<longrightarrow> extract_write env sid agt er out k = Inr (stored_value v, Fallback fk)"
    unfolding ew using shape by (auto simp: emergency_fallback_first_key)
  assume nores: "\<forall>e fk v rest.
             er = Some e \<and> map_of e ''result'' = Some (JDict ((fk, v) # rest)) \<longrightarrow> fk = []"
  note nf = emergency_fallback_no_entry [OF shape ershape nores]
  show "\<forall>pre key v post.
                 out = JDict (pre @ (key, v) # post) \<and> (\<forall>(k', v') \<in> set pre. \<not> truthy v')
                 \<and> truthy v
                 \<longrightarrow> extract_write env sid agt er out k = Inr (v, Output_fallback key)"
    unfolding ew nf by (auto simp: first_item_append truthy_stored)
  assume "out = JNull \<or> (\<exists>d. out = JDict d \<and> (\<forall>(k', v') \<in> set d. \<not> truthy v'))"
  then show "extract_write env sid agt er out k = Inr (JList [], Empty_list_last_resort)"
    unfolding ew nf by (auto simp: first_item_none)
next
  assume "map_of (nodes c) sid = Some nd \<and> \<not> has_executable_code out
       \<and> (out = JNull \<or> is_dict out)"
  then show "\<exists>c'. mark_done env sid out c = Inr c' \<and> status_of c' sid = Completed
             \<and> (\<forall>w \<in> set (writes_or_empty nd). map_of (globals_schema c') (Name w) \<noteq> None)"
    using mark_done_no_code [of c sid nd out env] by blast
qed

theorem emergency_fallback_cases_witness:
  "extract_write code_runner_ab ''T1'' ''CoderAgent''
      (Some [(''status'', JStr ''success''),
             (''result'', JDict [(''a'', JStr []), (''b'', JInt 5)])])
      (JDict [(''a'', JStr []), (''b'', JInt 5)]) ''z''
     = Inr (JStr [], Fallback ''a'')
   \<and> extract_write quiet ''T1'' ''CoderAgent'' None JNull ''z''
     = Inr (JList [], Empty_list_last_resort)
   \<and> extract_write quiet ''T1'' ''CoderAgent'' None
        (JDict [(''note'', JStr []), (''answer'', JInt 7)]) ''z''
     = Inr (JInt 7, Output_fallback ''answer'')
   \<and> (case mark_done quiet ''T1'' JNull one_step of
         Inl e \<Rightarrow> None
       | Inr c' \<Rightarrow> Some (status_of c' ''T1'', map_of (globals_schema c') (Name ''z'')))
     = Some (Completed, Some (JList []))"
proof -
  let ?er = "[(''status'', JStr ''success''),
             (''result'', JDict [(''a'', JStr []), (''b'', JInt 5)])]"
  let ?ab = "JDict [(''a'', JStr []), (''b'', JInt 5)]"
  let ?na = "JDict [(''note'', JStr []), (''answer'', JInt 7)]"
  have m1: "earlier_strategies code_runner_ab ''T1'' ''CoderAgent'' (Some ?er) ?ab ''z'' = Inr None"
    by (simp add: extraction_defs)
  have m2: "earlier_strategies quiet ''T1'' ''CoderAgent'' None JNull ''z'' = Inr None"
    by (simp add: extraction_defs)
  have m3: "earlier_strategies quiet ''T1'' ''CoderAgent'' None ?na ''z'' = Inr None"
    by (simp add: extraction_defs)
  have h1: "earlier_strategies code_runner_ab ''T1'' ''CoderAgent'' (Some ?er) ?ab ''z'' = Inr None
      \<and> (?ab = JNull \<or> is_dict ?ab)
      \<and> (\<forall>e. Some ?er = Some e \<longrightarrow> is_dict (dict_get e ''result'' (JDict [])))"
    using m1 by (simp add: dict_get_def)
  note p1 = emergency_fallback_cases
      [of code_runner_ab "''T1''" "''CoderAgent''" "Some ?er" ?ab "''z''" one_step coder_step,
       THEN conjunct1, THEN mp, OF h1]
  have a: "extract_write code_runner_ab ''T1'' ''CoderAgent'' (Some ?er) ?ab ''z''
      = Inr (stored_value (JStr []), Fallback ''a'')"
    by (rule p1 [THEN conjunct2, THEN conjunct1, rule_format,
          of ?er "''a''" "JStr []" "[(''b'', JInt 5)]"]) simp
  have h2: "earlier_strategies quiet ''T1'' ''CoderAgent'' None JNull ''z'' = Inr None
      \<and> (JNull = JNull \<or> is_dict JNull)
      \<and> (\<forall>e. None = Some e \<longrightarrow> is_dict (dict_get e ''result'' (JDict [])))"
    using m2 by simp
  note p2 = emergency_fallback_cases
      [of quiet "''T1''" "''CoderAgent''" None JNull "''z''" one_step coder_step,
       THEN conjunct1, THEN mp, OF h2]
  have b: "extract_write quiet ''T1'' ''CoderAgent'' None JNull ''z''
      = Inr (JList [], Empty_list_last_resort)"
    by (rule p2 [THEN conjunct2, THEN conjunct2, rule_format, THEN conjunct2, rule_format])
       simp_all
  have h3: "earlier_strategies quiet ''T1'' ''CoderAgent'' None ?na ''z'' = Inr None
      \<and> (?na = JNull \<or> is_dict ?na)
      \<and> (\<forall>e. None = Some e \<longrightarrow> is_dict (dict_get e ''result'' (JDict [])))"
    using m3 by simp
  note p3 = emergency_fallback_cases
      [of quiet "''T1''" "''CoderAgent''" None ?na "''z''" one_step coder_step,
       THEN conjunct1, THEN mp, OF h3]
  have c: "extract_write quiet ''T1'' ''CoderAgent'' None ?na ''z''
      = Inr (JInt 7, Output_fallback ''answer'')"
    by (rule p3 [THEN conjunct2, THEN conjunct2, rule_format, THEN conjunct1, rule_format,
          of "[(''note'', JStr [])]" _ _ "[]"]) simp_all
  have d: "(case mark_done quiet ''T1'' JNull one_step of
         Inl e \<Rightarrow> None
       | Inr c' \<Rightarrow> Some (status_of c' ''T1'', map_of (globals_schema c') (Name ''z'')))
     = Some (Completed, Some (JList []))"
    by (simp add: mark_done_defs extraction_defs example_defs code_runner_ab_def status_of_def)
  from a b c d show ?thesis by (simp add: stored_value_def)
qed

section \<open>User interaction\<close>

lemma mark_done_plain:
  assumes node: "map_of (nodes c) sid = Some nd"
    and u: "user_interaction_check env (case nd_agent nd of None \<Rightarrow> [] | Some a \<Rightarrow> a) out
              (globals_schema c) = (gs1, out1)"
    and nocode: "\<not> has_executable_code out1"
    and shape: "out1 = JNull \<or> is_dict out1"
  shows "\<exists>gs2. extract_writes env sid (case nd_agent nd of None \<Rightarrow> [] | Some a \<Rightarrow> a) None out1
            (writes_or_empty nd) gs1 = Inr gs2
     \<and> mark_done env sid out c = Inr (c\<lparr>globals_schema := gs2,
          nodes := AList.update sid (nd\<lparr>nd_status := Some Completed, nd_output := Some out1\<rparr>)
            (nodes c)\<rparr>)"
proof -
  let ?agt = "case nd_agent nd of None \<Rightarrow> [] | Some a \<Rightarrow> a"
  have ce: "code_execution_check env (c\<lparr>globals_schema := gs1\<rparr>) nd out1 = (None, out1)"
    using nocode by (simp add: code_execution_check_def)
  obtain gs2 where x: "extract_writes env sid ?agt None out1 (writes_or_empty nd) gs1 = Inr gs2"
    using extract_writes_total [of "writes_or_empty nd" env sid ?agt None out1 gs1]
      extract_write_no_result [OF shape] by blast
  have "mark_done env sid out c = Inr (c\<lparr>globals_schema := gs2,
      nodes := AList.update sid (nd\<lparr>nd_status := Some Completed, nd_output := Some out1\<rparr>) (nodes c)\<rparr>)"
    using node u ce x by (simp add: mark_done_def Let_def)
  with x show ?thesis by blast
qed

text \<open>
  Claim C8, as stated, fails.  The clarification step's output asks the user to choose,
  no terminal is available and the prompt raises; \<open>mark_done\<close> catches the exception and
  goes on: the node ends completed, not failed.
\<close>

theorem interaction_unavailable_counterexample:
  "handle_user_interaction_rich quiet clarification_fields = Inl (OtherError ''no terminal'')
   \<and> (case mark_done quiet ''Q1'' (JDict clarification_fields) asking of
         Inl e \<Rightarrow> None
       | Inr c' \<Rightarrow> Some (status_of c' ''Q1'')) = Some Completed"
  by (simp add: mark_done_defs extraction_defs asking_def asking_step_def clarification_fields_def root_attrs_def no_attrs_def quiet_def status_of_def
      handle_user_interaction_rich_def option_count_def Let_def)

text \<open>
  Claim C8, amended.  For a clarification step whose output requests user interaction
  and carries no executable code, if the interaction attempt raises, the exception is
  caught: \<open>mark_done\<close> returns normally, the node's status is completed, its output is
  stored as the worker gave it (no \<open>user_response\<close> added), and the variable store changes
  only at the step's declared write keys.
\<close>

theorem interaction_failure_is_swallowed:
  assumes node: "map_of (nodes c) sid = Some nd"
    and agent: "nd_agent nd = Some ''ClarificationAgent''"
    and asks: "map_of d ''clarificationMessage'' = Some message"
    and unavailable: "handle_user_interaction_rich env d = Inl e"
    and nocode: "\<not> has_executable_code (JDict d)"
  shows "\<exists>c'. mark_done env sid (JDict d) c = Inr c'
      \<and> status_of c' sid = Completed
      \<and> map_option nd_output (map_of (nodes c') sid) = Some (Some (JDict d))
      \<and> (\<forall>key. key \<notin> Name ` set (writes_or_empty nd)
            \<longrightarrow> map_of (globals_schema c') key = map_of (globals_schema c) key)"
proof -
  have u: "user_interaction_check env (case nd_agent nd of None \<Rightarrow> [] | Some a \<Rightarrow> a) (JDict d)
      (globals_schema c) = (globals_schema c, JDict d)"
    using agent asks unavailable
    by (simp add: user_interaction_check_def is_clarification_request_def)
  from mark_done_plain [OF node u nocode]
  obtain gs2 where x: "extract_writes env sid (case nd_agent nd of None \<Rightarrow> [] | Some a \<Rightarrow> a)
        None (JDict d) (writes_or_empty nd) (globals_schema c) = Inr gs2"
    and md: "mark_done env sid (JDict d) c = Inr (c\<lparr>globals_schema := gs2,
          nodes := AList.update sid (nd\<lparr>nd_status := Some Completed,
            nd_output := Some (JDict d)\<rparr>) (nodes c)\<rparr>)"
    by auto
  have "\<forall>key. key \<notin> Name ` set (writes_or_empty nd)
      \<longrightarrow> map_of gs2 key = map_of (globals_schema c) key"
    using extract_writes_other [OF x] by blast
  with md mark_done_status [OF md] show ?thesis
    by (simp add: update_conv')
qed

theorem interaction_failure_is_swallowed_witness:
  "\<exists>c'. mark_done quiet ''Q1'' (JDict clarification_fields) asking = Inr c'
      \<and> status_of c' ''Q1'' = Completed
      \<and> map_option nd_output (map_of (nodes c') ''Q1'') = Some (Some (JDict clarification_fields))
      \<and> (\<forall>key. key \<notin> Name ` set (writes_or_empty asking_step)
            \<longrightarrow> map_of (globals_schema c') key = map_of (globals_schema asking) key)"
proof (rule interaction_failure_is_swallowed)
  show "map_of (nodes asking) ''Q1'' = Some asking_step" by (simp add: asking_def)
  show "nd_agent asking_step = Some ''ClarificationAgent''"
    by (simp add: asking_step_def no_attrs_def)
  show "map_of clarification_fields ''clarificationMessage'' = Some (JStr ''Which one?'')"
    by (simp add: clarification_fields_def)
  show "handle_user_interaction_rich quiet clarification_fields
      = Inl (OtherError ''no terminal'')"
    by (simp add: handle_user_interaction_rich_def option_count_def Let_def quiet_def
        clarification_fields_def dict_get_def)
  show "\<not> has_executable_code (JDict clarification_fields)"
    by (simp add: has_executable_code_def clarification_fields_def startswith_def)
qed

section \<open>Graph construction\<close>

lemmas init_defs = init_context_def add_node_def add_edge_def ensure_node_def
  plan_node_attrs_def reserved_keys_def

text \<open>
  Claim C7, as stated, fails.  A plan whose two nodes depend on each other, and a plan
  with an edge to the unknown id \<open>X\<close>, are both accepted by the constructor: the first
  gives a graph with the cycle in it and no ready step, the second a graph in which \<open>X\<close>
  is a node without attributes.
\<close>

theorem malformed_plan_counterexample:
  "(case init_context cyclic_plan ''s1'' (JStr ''q'') (JList []) ''t0'' of
      Inl e \<Rightarrow> None
    | Inr c \<Rightarrow> Some (map fst (nodes c), edges c, get_ready_steps c))
     = Some ([''ROOT'', ''A'', ''B''], [(''A'', ''B''), (''B'', ''A'')], [])
   \<and> (case init_context dangling_plan ''s1'' (JStr ''q'') (JList []) ''t0'' of
        Inl e \<Rightarrow> None
      | Inr c \<Rightarrow> Some (map fst (nodes c), edges c, map_of (nodes c) ''X''))
     = Some ([''ROOT'', ''A'', ''X''], [(''A'', ''X'')], Some no_attrs)"
  by (simp add: init_defs cyclic_plan_def dangling_plan_def plain_plan_node_def root_attrs_def no_attrs_def get_ready_steps_def is_ready_def all_deps_complete_def
      status_of_def predecessors_def)

lemma add_node_keys: "fst ` set (add_node n a ns) = insert n (fst ` set ns)"
  by (auto simp: add_node_def dom_update split: option.splits
      dest: map_of_SomeD simp: rev_image_eqI)

lemma add_plan_nodes_accepts:
  "\<forall>pn \<in> set pns. \<forall>k \<in> set (pn_other_keys pn). k \<notin> set reserved_keys \<Longrightarrow>
     \<exists>ns'. add_plan_nodes pns ns = Inr ns' \<and> fst ` set ns' = fst ` set ns \<union> pn_id ` set pns"
proof (induction pns arbitrary: ns)
  case Nil
  show ?case by simp
next
  case (Cons pn pns)
  then have ok: "\<not> list_ex (\<lambda>k. k \<in> set reserved_keys) (pn_other_keys pn)"
    by (auto simp: list_ex_iff)
  from Cons obtain ns' where
    "add_plan_nodes pns (add_node (pn_id pn) (plan_node_attrs pn) ns) = Inr ns'"
    "fst ` set ns' = fst ` set (add_node (pn_id pn) (plan_node_attrs pn) ns) \<union> pn_id ` set pns"
    by (metis list.set_intros(2))
  with ok show ?case by (auto simp: add_node_keys)
qed

lemma ensure_node_lookup:
  "map_of (ensure_node n ns) m =
     (case map_of ns m of Some d \<Rightarrow> Some d | None \<Rightarrow> if m = n then Some no_attrs else None)"
  by (auto simp: ensure_node_def map_add_def split: option.splits)

lemma add_edge_lookup:
  "map_of (nodes (add_edge u v c)) m =
     (case map_of (nodes c) m of
        Some d \<Rightarrow> Some d
      | None \<Rightarrow> if m = u \<or> m = v then Some no_attrs else None)"
  by (auto simp: add_edge_def ensure_node_lookup split: option.splits)

lemma add_edges_lookup:
  "map_of (nodes (add_edges es c)) m =
     (case map_of (nodes c) m of
        Some d \<Rightarrow> Some d
      | None \<Rightarrow> if m \<in> fst ` set es \<union> snd ` set es then Some no_attrs else None)"
proof (induction es arbitrary: c)
  case Nil
  show ?case by (simp split: option.splits)
next
  case (Cons e es)
  obtain u v where e: "e = (u, v)" by (cases e)
  show ?case unfolding e
    by (auto simp: Cons.IH add_edge_lookup split: option.splits)
qed

lemma add_edges_edges: "set (edges (add_edges es c)) = set (edges c) \<union> set es"
proof (induction es arbitrary: c)
  case Nil
  show ?case by simp
next
  case (Cons e es)
  obtain u v where e: "e = (u, v)" by (cases e)
  show ?case unfolding e by (auto simp: Cons.IH add_edge_def)
qed


text \<open>
  Claim C7, amended.  The constructor checks nothing about the edges.  For every plan
  none of whose node dicts carries a key that the constructor passes itself, whatever the
  edge set (a cycle, an edge to or from an unknown id), construction succeeds: the graph
  holds exactly the plan's edges, both ends of every edge are nodes of the graph, and an
  end that is neither \<open>ROOT\<close> nor a plan node is a node without any attribute.
\<close>

theorem construction_accepts_any_edges:
  assumes "\<forall>pn \<in> set (plan_nodes p). \<forall>k \<in> set (pn_other_keys pn). k \<notin> set reserved_keys"
  shows "\<exists>c. init_context p sid q m now = Inr c
     \<and> set (edges c) = set (plan_edges p)
     \<and> (\<forall>(u, v) \<in> set (plan_edges p). map_of (nodes c) u \<noteq> None \<and> map_of (nodes c) v \<noteq> None)
     \<and> (\<forall>n \<in> fst ` set (plan_edges p) \<union> snd ` set (plan_edges p).
           n \<noteq> ''ROOT'' \<and> n \<notin> pn_id ` set (plan_nodes p)
           \<longrightarrow> map_of (nodes c) n = Some no_attrs)"
proof -
  from add_plan_nodes_accepts [OF assms, of "[(''ROOT'', root_attrs)]"]
  obtain ns where ns: "add_plan_nodes (plan_nodes p) [(''ROOT'', root_attrs)] = Inr ns"
    and keys: "fst ` set ns = {''ROOT''} \<union> pn_id ` set (plan_nodes p)"
    by auto
  let ?c0 = "\<lparr> nodes = ns, edges = [], globals_schema = [], session_id = sid,
     original_query = q, file_manifest = m, created_at = now \<rparr>"
  let ?c = "add_edges (plan_edges p) ?c0"
  have i: "init_context p sid q m now = Inr ?c"
    by (simp add: init_context_def ns)
  have e: "set (edges ?c) = set (plan_edges p)"
    by (simp add: add_edges_edges)
  have ends: "\<forall>(u, v) \<in> set (plan_edges p). map_of (nodes ?c) u \<noteq> None \<and> map_of (nodes ?c) v \<noteq> None"
    by (auto simp: add_edges_lookup rev_image_eqI split: option.splits)
  have new: "\<forall>n \<in> fst ` set (plan_edges p) \<union> snd ` set (plan_edges p).
           n \<noteq> ''ROOT'' \<and> n \<notin> pn_id ` set (plan_nodes p)
           \<longrightarrow> map_of (nodes ?c) n = Some no_attrs"
  proof (intro ballI impI)
    fix n
    assume n: "n \<in> fst ` set (plan_edges p) \<union> snd ` set (plan_edges p)"
      and "n \<noteq> ''ROOT'' \<and> n \<notin> pn_id ` set (plan_nodes p)"
    then have "n \<notin> fst ` set ns" by (simp add: keys)
    then have "map_of ns n = None" by (simp add: map_of_eq_None_iff)
    with n show "map_of (nodes ?c) n = Some no_attrs"
      by (simp add: add_edges_lookup)
  qed
  from i e ends new show ?thesis by blast
qed

theorem construction_accepts_any_edges_witness:
  "\<exists>c. init_context dangling_plan ''s1'' (JStr ''q'') (JList []) ''t0'' = Inr c
     \<and> set (edges c) = set (plan_edges dangling_plan)
     \<and> (\<forall>(u, v) \<in> set (plan_edges dangling_plan).
           map_of (nodes c) u \<noteq> None \<and> map_of (nodes c) v \<noteq> None)
     \<and> (\<forall>n \<in> fst ` set (plan_edges dangling_plan) \<union> snd ` set (plan_edges dangling_plan).
           n \<noteq> ''ROOT'' \<and> n \<notin> pn_id ` set (plan_nodes dangling_plan)
           \<longrightarrow> map_of (nodes c) n = Some no_attrs)"
  by (rule construction_accepts_any_edges) (simp add: dangling_plan_def plain_plan_node_def)

section \<open>Failure is final\<close>

lemma same_elsewhere_refl: "same_elsewhere S c c"
  by (simp add: same_elsewhere_def)

lemma same_elsewhere_trans:
  "same_elsewhere S a b \<Longrightarrow> same_elsewhere T b c \<Longrightarrow> same_elsewhere (S \<union> T) a c"
  by (simp add: same_elsewhere_def)

lemma same_elsewhere_mono:
  "same_elsewhere S a b \<Longrightarrow> S \<subseteq> T \<Longrightarrow> same_elsewhere T a b"
  by (auto simp: same_elsewhere_def)

lemma same_elsewhere_status:
  "same_elsewhere S c c' \<Longrightarrow> m \<notin> S \<Longrightarrow> status_of c' m = status_of c m"
  by (simp add: same_elsewhere_def status_of_def)

lemma same_elsewhere_predecessors:
  "same_elsewhere S c c' \<Longrightarrow> predecessors c' n = predecessors c n"
  by (simp add: same_elsewhere_def predecessors_def)

lemma update_node_frame:
  "same_elsewhere {sid} c (c\<lparr> nodes := AList.update sid d (nodes c) \<rparr>)"
  by (simp add: same_elsewhere_def update_conv')

lemma set_step_output_frame: "same_elsewhere {sid} c (set_step_output c sid out)"
  by (simp add: set_step_output_def update_node_frame same_elsewhere_refl split: option.splits)

lemma set_final_iteration_output_frame:
  "same_elsewhere {sid} c (set_final_iteration_output c sid out)"
  by (simp add: set_final_iteration_output_def update_node_frame same_elsewhere_refl
      split: option.splits)

lemma mark_running_frame: "mark_running sid c = Inr c' \<Longrightarrow> same_elsewhere {sid} c c'"
  by (auto simp: mark_running_def set_status_def update_node_frame split: option.splits)

lemma mark_failed_frame: "mark_failed sid err c = Inr c' \<Longrightarrow> same_elsewhere {sid} c c'"
  by (auto simp: mark_failed_def update_node_frame split: option.splits)

lemma mark_done_frame: "mark_done env sid out c = Inr c' \<Longrightarrow> same_elsewhere {sid} c c'"
  by (auto simp: mark_done_def Let_def same_elsewhere_def update_conv'
      split: option.splits prod.splits sum.splits)

lemma mark_all_running_frame:
  "mark_all_running ready c = Inr c' \<Longrightarrow> same_elsewhere (set ready) c c'"
proof (induction ready arbitrary: c)
  case Nil
  then show ?case by (simp add: same_elsewhere_refl)
next
  case (Cons sid ready)
  from Cons.prems obtain c1 where m: "mark_running sid c = Inr c1"
    and r: "mark_all_running ready c1 = Inr c'"
    by (auto split: sum.splits)
  from same_elsewhere_trans [OF mark_running_frame [OF m] Cons.IH [OF r]]
  show ?case by simp
qed

lemma iteration_loop_frame:
  "same_elsewhere {sid} (loop_ctx s)
     (loop_ctx (snd (iteration_loop run mx sid sd agt inputs s)))"
proof (induction "Suc mx - current_iteration s" arbitrary: s)
  case 0
  then have "\<not> current_iteration s \<le> mx" by simp
  then show ?case by (subst iteration_loop.simps) (simp add: same_elsewhere_refl)
next
  case (Suc n)
  have step: "\<And>s'::loop_state. current_iteration s' = Suc (current_iteration s) \<Longrightarrow>
      same_elsewhere {sid} (loop_ctx s) (loop_ctx s') \<Longrightarrow>
      same_elsewhere {sid} (loop_ctx s)
        (loop_ctx (snd (iteration_loop run mx sid sd agt inputs s')))"
  proof -
    fix s' :: loop_state
    assume a: "current_iteration s' = Suc (current_iteration s)"
      and b: "same_elsewhere {sid} (loop_ctx s) (loop_ctx s')"
    have "n = Suc mx - current_iteration s'" using Suc.hyps(2) a by simp
    from same_elsewhere_trans [OF b Suc.hyps(1) [OF this]]
    show "same_elsewhere {sid} (loop_ctx s)
        (loop_ctx (snd (iteration_loop run mx sid sd agt inputs s')))" by simp
  qed
  show ?case
    by (subst iteration_loop.simps)
       (auto simp: step same_elsewhere_refl set_step_output_frame
          split: sum.splits agent_result.splits json.splits)
qed

lemma execute_step_frame: "same_elsewhere {sid} c (ex_ctx (execute_step run mx sid c))"
proof (cases "map_of (nodes c) sid")
  case None
  then show ?thesis by (simp add: execute_step_def same_elsewhere_refl)
next
  case (Some sd)
  show ?thesis
  proof (cases "nd_agent sd")
    case None
    with Some show ?thesis by (simp add: execute_step_def same_elsewhere_refl)
  next
    case (Some agt)
    note agt = this
    show ?thesis
    proof (cases "get_inputs c (reads_or_empty sd)")
      case (Inl e)
      with agt \<open>map_of (nodes c) sid = Some sd\<close> show ?thesis
        by (simp add: execute_step_def same_elsewhere_refl)
    next
      case (Inr inputs)
      let ?r = "iteration_loop run mx sid sd agt inputs (initial_loop_state c)"
      have f: "same_elsewhere {sid} c (loop_ctx (snd ?r))"
        using iteration_loop_frame [of sid "initial_loop_state c" run mx sd agt inputs]
        by (simp add: initial_loop_state_def)
      have g: "same_elsewhere {sid} c
          (set_final_iteration_output (loop_ctx (snd ?r)) sid (current_output (snd ?r)))"
        using same_elsewhere_trans [OF f set_final_iteration_output_frame
            [of sid "loop_ctx (snd ?r)" "current_output (snd ?r)"]] by simp
      show ?thesis using agt Inr \<open>map_of (nodes c) sid = Some sd\<close> f g
        by (cases ?r) (auto simp: execute_step_def split: option.splits)
    qed
  qed
qed

lemma gather_frame: "gather env ready c = (c', rs) \<Longrightarrow> same_elsewhere (set ready) c c'"
proof (induction ready arbitrary: c c' rs)
  case Nil
  then show ?case by (simp add: same_elsewhere_refl)
next
  case (Cons sid ready)
  let ?ex = "execute_step (run_agent env) max_iterations sid c"
  obtain c1 rs1 where g: "gather env ready (ex_ctx ?ex) = (c1, rs1)"
    by (cases "gather env ready (ex_ctx ?ex)") auto
  with Cons.prems have "c' = c1" by (simp add: Let_def)
  with same_elsewhere_trans [OF execute_step_frame Cons.IH [OF g]]
  show ?case by simp
qed

lemma process_results_frame:
  "process_results env rs c = Inr c' \<Longrightarrow> same_elsewhere (fst ` set rs) c c'"
proof (induction rs arbitrary: c)
  case Nil
  then show ?case by (simp add: same_elsewhere_refl)
next
  case (Cons r rs)
  obtain sid res where r: "r = (sid, res)" by (cases r)
  from Cons.prems obtain c1 where
    one: "(case res of
             Inl exn \<Rightarrow> mark_failed sid (error_text exn) c
           | Inr x \<Rightarrow> (if sr_success x then mark_done env sid (sr_output x) c
                       else (case sr_error x of None \<Rightarrow> Inl (KeyError ''error'')
                             | Some msg \<Rightarrow> mark_failed sid msg c))) = Inr c1"
    and rest: "process_results env rs c1 = Inr c'"
    unfolding r by (auto split: sum.splits)
  have "same_elsewhere {sid} c c1"
    using one
    by (auto split: sum.splits if_splits option.splits
        intro: mark_failed_frame mark_done_frame)
  from same_elsewhere_trans [OF this Cons.IH [OF rest]]
  show ?case by (simp add: r)
qed

lemma dag_round_frame:
  assumes "dag_round env c = Next c' \<or> dag_round env c = Stop c'"
  shows "same_elsewhere (set (get_ready_steps c)) c c'"
proof (cases "get_ready_steps c = []")
  case True
  with assms have "c' = c"
    by (auto simp: dag_round_def split: sum.splits if_splits)
  then show ?thesis by (simp add: same_elsewhere_refl)
next
  case False
  with assms obtain c1 c2 rs where
    a: "mark_all_running (get_ready_steps c) c = Inr c1"
    and b: "gather env (get_ready_steps c) c1 = (c2, rs)"
    and d: "process_results env (zip (get_ready_steps c) rs) c2 = Inr c'"
    by (auto simp: dag_round_def Let_def split: sum.splits prod.splits)
  have "fst ` set (zip (get_ready_steps c) rs) \<subseteq> set (get_ready_steps c)"
    by (auto dest: set_zip_leftD)
  from same_elsewhere_mono [OF process_results_frame [OF d] this]
  have e: "same_elsewhere (set (get_ready_steps c)) c2 c'" .
  from same_elsewhere_trans [OF same_elsewhere_trans
      [OF mark_all_running_frame [OF a] gather_frame [OF b]] e]
  show ?thesis by simp
qed


lemma failed_not_ready: "status_of c p = Failed \<Longrightarrow> p \<notin> set (get_ready_steps c)"
  by (simp add: get_ready_steps_def is_ready_iff)

lemma dependent_not_ready:
  "p \<in> set (predecessors c n) \<Longrightarrow> status_of c p = Failed \<Longrightarrow> n \<notin> set (get_ready_steps c)"
  by (auto simp: get_ready_steps_def is_ready_iff)

lemma all_done_pending:
  assumes "map_of ns n = Some d" and "nd_status d \<noteq> Some Completed"
    and "nd_status d \<noteq> Some Failed"
  shows "all_done_scan ns \<noteq> Inr True"
  using assms
proof (induction ns)
  case Nil
  then show ?case by simp
next
  case (Cons a ns)
  obtain m d' where a: "a = (m, d')" by (cases a)
  show ?case
  proof (cases "m = n")
    case True
    with Cons.prems a show ?thesis by (cases "nd_status d'") (auto split: status.splits)
  next
    case False
    with Cons a show ?thesis by (auto split: option.splits)
  qed
qed

lemma dag_loop_untouched:
  assumes never: "\<And>c. P c \<Longrightarrow> m \<notin> set (get_ready_steps c)"
    and keeps: "\<And>c c'. P c \<Longrightarrow> same_elsewhere (set (get_ready_steps c)) c c' \<Longrightarrow> P c'"
  shows "dag_loop env i s = (exn, s') \<Longrightarrow> P (dag_ctx s) \<Longrightarrow>
     P (dag_ctx s') \<and> (\<exists>later. ready_history s' = ready_history s @ later
                          \<and> (\<forall>r \<in> set later. m \<notin> set r))"
proof (induction "max_iterations - i" arbitrary: i s)
  case 0
  then have "\<not> i < max_iterations" by simp
  with "0.prems"(1) have "s' = s"
    by (subst (asm) dag_loop.simps) (auto split: sum.splits)
  with "0.prems"(2) show ?case by simp
next
  case (Suc k)
  let ?ready = "get_ready_steps (dag_ctx s)"
  let ?h = "ready_history s @ [?ready]"
  have nr: "m \<notin> set ?ready" using never [OF Suc.prems(2)] .
  show ?case
  proof (cases "all_done (dag_ctx s)")
    case (Inl e)
    with Suc.prems(1) have "s' = s"
      by (subst (asm) dag_loop.simps) simp
    with Suc.prems(2) show ?thesis by simp
  next
    case (Inr finished)
    show ?thesis
    proof (cases "\<not> finished \<and> i < max_iterations")
      case False
      with Inr Suc.prems(1) have "s' = s"
        by (subst (asm) dag_loop.simps) auto
      with Suc.prems(2) show ?thesis by simp
    next
      case True
      show ?thesis
      proof (cases "dag_round env (dag_ctx s)")
        case (Raised e)
        with Inr True Suc.prems(1) have "s' = s\<lparr> ready_history := ?h \<rparr>"
          by (subst (asm) dag_loop.simps) auto
        with Suc.prems(2) nr show ?thesis by simp
      next
        case (Stop c')
        with Inr True Suc.prems(1) have s': "s' = \<lparr> dag_ctx = c', ready_history = ?h \<rparr>"
          by (subst (asm) dag_loop.simps) auto
        have "P c'" using keeps [OF Suc.prems(2) dag_round_frame] Stop by blast
        with s' nr show ?thesis by simp
      next
        case (Next c')
        let ?s1 = "\<lparr> dag_ctx = c', ready_history = ?h \<rparr>"
        from Next Inr True Suc.prems(1) have run: "dag_loop env (Suc i) ?s1 = (exn, s')"
          by (subst (asm) dag_loop.simps) auto
        have "P c'" using keeps [OF Suc.prems(2) dag_round_frame] Next by blast
        then have p1: "P (dag_ctx ?s1)" by simp
        have "k = max_iterations - Suc i" using Suc.hyps(2) by simp
        from Suc.hyps(1) [OF this run p1]
        obtain later where "P (dag_ctx s')" "ready_history s' = ?h @ later"
          "\<forall>r \<in> set later. m \<notin> set r" by auto
        with nr show ?thesis by simp
      qed
    qed
  qed
qed


lemmas step_defs = execute_step_def initial_loop_state_def build_agent_input_def
  agent_prompt_of_def get_inputs_def reads_or_empty_def writes_or_empty_def
  set_step_output_def set_final_iteration_output_def say_def invoked_def store_output_def
  adopt_def dict_get_def max_iterations_def

lemmas dag_defs = execute_dag_def dag_round_def all_done_def get_ready_steps_def is_ready_def
  all_deps_complete_def predecessors_def status_of_def mark_running_def set_status_def
  mark_failed_def

text \<open>
  Claim C4, as stated, fails in its last part.  \<open>all_done\<close> counts a failed node as done
  ("Check if all steps are completed or failed").  In a run of the one step \<open>T1\<close> whose
  worker call raises, the node ends failed, nothing depends on it, \<open>all_done\<close> is true
  after the first round and "All tasks completed!" is printed.
\<close>

theorem lone_failed_node_counterexample:
  "status_of (final_ctx (execute_dag unknown_agent single)) ''T1'' = Failed
   \<and> rounds (execute_dag unknown_agent single) = [[''T1'']]
   \<and> raised (execute_dag unknown_agent single) = None
   \<and> all_tasks_completed (execute_dag unknown_agent single)"
  by (simp add: dag_defs dag_loop.simps step_defs iteration_loop.simps single_def
      coder_step_def root_attrs_def no_attrs_def unknown_agent_def quiet_def)

text \<open>
  Claim C4, amended.  From any state of the driver loop in which a node is failed, to the
  state in which the loop ends: the node is still failed and is in none of the later ready
  sets; every node that depends on it and was pending is still pending and is in none of
  the later ready sets; and when the failed node has such a dependent, \<open>all_done\<close> is not
  true at the end, so "All tasks completed!" is not printed.  Nothing else is reported:
  the code has no \<open>STALLED\<close> value, the run ends by the \<open>break\<close> on failures or by the round
  limit.
\<close>

theorem failed_is_final:
  assumes failed: "status_of (dag_ctx s) p = Failed"
    and run: "dag_loop env i s = (exn, s')"
  shows "status_of (dag_ctx s') p = Failed
     \<and> (\<exists>later. ready_history s' = ready_history s @ later \<and> (\<forall>r \<in> set later. p \<notin> set r))
     \<and> (\<forall>n. p \<in> set (predecessors (dag_ctx s) n) \<and> status_of (dag_ctx s) n = Pending
            \<and> map_of (nodes (dag_ctx s)) n \<noteq> None
          \<longrightarrow> status_of (dag_ctx s') n = Pending
            \<and> (\<exists>later. ready_history s' = ready_history s @ later
                  \<and> (\<forall>r \<in> set later. n \<notin> set r))
            \<and> all_done (dag_ctx s') \<noteq> Inr True
            \<and> \<not> all_tasks_completed (execute_dag env (dag_ctx s)))"
proof (intro conjI allI impI)
  have keeps: "\<And>c c'. status_of c p = Failed \<Longrightarrow>
      same_elsewhere (set (get_ready_steps c)) c c' \<Longrightarrow> status_of c' p = Failed"
    using failed_not_ready same_elsewhere_status by metis
  from dag_loop_untouched [of "\<lambda>c. status_of c p = Failed" p, OF failed_not_ready keeps run failed]
  show "status_of (dag_ctx s') p = Failed"
    and "\<exists>later. ready_history s' = ready_history s @ later \<and> (\<forall>r \<in> set later. p \<notin> set r)"
    by auto
next
  fix n
  assume dep: "p \<in> set (predecessors (dag_ctx s) n) \<and> status_of (dag_ctx s) n = Pending
            \<and> map_of (nodes (dag_ctx s)) n \<noteq> None"
  let ?P = "\<lambda>c. status_of c p = Failed \<and> p \<in> set (predecessors c n)
      \<and> status_of c n = Pending \<and> map_of (nodes c) n \<noteq> None"
  have never: "\<And>c. ?P c \<Longrightarrow> n \<notin> set (get_ready_steps c)"
    using dependent_not_ready by blast
  have keeps: "\<And>c c'. ?P c \<Longrightarrow> same_elsewhere (set (get_ready_steps c)) c c' \<Longrightarrow> ?P c'"
  proof -
    fix c c' assume P: "?P c" and f: "same_elsewhere (set (get_ready_steps c)) c c'"
    from P have a: "p \<notin> set (get_ready_steps c)" by (simp add: failed_not_ready)
    from P have b: "n \<notin> set (get_ready_steps c)" by (rule never)
    from f b have "map_of (nodes c') n = map_of (nodes c) n" by (simp add: same_elsewhere_def)
    with P same_elsewhere_status [OF f a] same_elsewhere_status [OF f b]
      same_elsewhere_predecessors [OF f, of n]
    show "?P c'" by simp
  qed
  have blocked: "\<And>i s s' exn. dag_loop env i s = (exn, s') \<Longrightarrow> ?P (dag_ctx s) \<Longrightarrow>
      ?P (dag_ctx s') \<and> (\<exists>later. ready_history s' = ready_history s @ later
                           \<and> (\<forall>r \<in> set later. n \<notin> set r))"
    by (rule dag_loop_untouched [of ?P n, OF never keeps])
  have notdone: "\<And>c. ?P c \<Longrightarrow> all_done c \<noteq> Inr True"
  proof -
    fix c assume P: "?P c"
    then obtain d where d: "map_of (nodes c) n = Some d" by auto
    with P have "nd_status d \<noteq> Some Completed" "nd_status d \<noteq> Some Failed"
      by (auto simp: status_of_def split: option.splits)
    with d show "all_done c \<noteq> Inr True"
      unfolding all_done_def by (rule all_done_pending)
  qed
  from failed dep have P0: "?P (dag_ctx s)" by simp
  from blocked [OF run P0] have P1: "?P (dag_ctx s')"
    and l: "\<exists>later. ready_history s' = ready_history s @ later \<and> (\<forall>r \<in> set later. n \<notin> set r)"
    by auto
  from P1 show "status_of (dag_ctx s') n = Pending" by simp
  from l show "\<exists>later. ready_history s' = ready_history s @ later
      \<and> (\<forall>r \<in> set later. n \<notin> set r)" .
  from P1 show "all_done (dag_ctx s') \<noteq> Inr True" by (rule notdone)
  let ?s0 = "\<lparr> dag_ctx = dag_ctx s, ready_history = [] \<rparr>"
  obtain exn0 s0' where r0: "dag_loop env 0 ?s0 = (exn0, s0')"
    by (cases "dag_loop env 0 ?s0") auto
  from P0 have "?P (dag_ctx ?s0)" by simp
  from blocked [OF r0 this] have "?P (dag_ctx s0')" by simp
  then have "all_done (dag_ctx s0') \<noteq> Inr True" by (rule notdone)
  with r0 show "\<not> all_tasks_completed (execute_dag env (dag_ctx s))"
    by (auto simp: execute_dag_def split: option.splits sum.splits)
qed

theorem failed_is_final_witness:
  "status_of stalled ''E'' = Failed
   \<and> dag_loop quiet 0 \<lparr> dag_ctx = stalled, ready_history = [] \<rparr>
       = (None, \<lparr> dag_ctx = stalled, ready_history = [[]] \<rparr>)
   \<and> status_of stalled ''F'' = Pending
   \<and> all_done stalled \<noteq> Inr True
   \<and> \<not> all_tasks_completed (execute_dag quiet stalled)
   \<and> map (\<lambda>n. status_of (final_ctx (execute_dag unknown_agent chain)) n) [''E'', ''F'']
       = [Failed, Pending]
   \<and> rounds (execute_dag unknown_agent chain) = [[''E''], []]
   \<and> \<not> all_tasks_completed (execute_dag unknown_agent chain)"
proof -
  let ?s = "\<lparr> dag_ctx = stalled, ready_history = [] \<rparr>"
  let ?s' = "\<lparr> dag_ctx = stalled, ready_history = [[]] \<rparr>"
  have f: "status_of (dag_ctx ?s) ''E'' = Failed"
    by (simp add: status_of_def chain_def stalled_def plain_plan_node_def plan_node_attrs_def root_attrs_def no_attrs_def unknown_agent_def quiet_def)
  have r: "dag_loop quiet 0 ?s = (None, ?s')"
    by (simp add: dag_loop.simps dag_defs chain_def stalled_def plain_plan_node_def plan_node_attrs_def root_attrs_def no_attrs_def unknown_agent_def quiet_def max_iterations_def)
  have dep: "''E'' \<in> set (predecessors (dag_ctx ?s) ''F'') \<and> status_of (dag_ctx ?s) ''F'' = Pending
      \<and> map_of (nodes (dag_ctx ?s)) ''F'' \<noteq> None"
    by (simp add: status_of_def predecessors_def chain_def stalled_def plain_plan_node_def plan_node_attrs_def root_attrs_def no_attrs_def unknown_agent_def quiet_def)
  note t = failed_is_final [OF f r, THEN conjunct2, THEN conjunct2, rule_format, OF dep]
  have e: "map (\<lambda>n. status_of (final_ctx (execute_dag unknown_agent chain)) n) [''E'', ''F'']
       = [Failed, Pending]
     \<and> rounds (execute_dag unknown_agent chain) = [[''E''], []]
     \<and> \<not> all_tasks_completed (execute_dag unknown_agent chain)"
    by (simp add: dag_defs dag_loop.simps step_defs iteration_loop.simps chain_def stalled_def plain_plan_node_def plan_node_attrs_def root_attrs_def no_attrs_def unknown_agent_def quiet_def)
  from f r t e show ?thesis by simp
qed

section \<open>A failed worker invocation\<close>

text \<open>
  Claim C2 says that a step whose worker invocation fails ends failed, with no partial
  success reported.  The code at such an input does otherwise.  The plan has the one step
  \<open>T1\<close> with the write \<open>z\<close>.  When the worker fails on the first call, the loop of
  \<open>_execute_step\<close> prints the failure and breaks, and the function returns
  \<open>{"success": True, "output": None}\<close>; the driver then calls \<open>mark_done\<close>: the node ends
  completed, \<open>z\<close> is bound to the empty list and the run reports all tasks completed.
  When the worker succeeds once, asking for another iteration, and fails on the second
  call, the first output is returned as the step's result and \<open>z\<close> is bound from it.
\<close>

theorem failed_invocation_completes_step:
  "init_context single_plan ''s1'' (JStr ''q'') (JList []) ''t0'' = Inr single
   \<and> ex_result (execute_step (run_agent quiet) max_iterations ''T1'' single)
       = Inr \<lparr> sr_success = True, sr_output = JNull, sr_error = None \<rparr>
   \<and> ex_printed (execute_step (run_agent quiet) max_iterations ''T1'' single)
       = [Running_iteration 1, Iteration_failed 1 ''down'']
   \<and> status_of (final_ctx (execute_dag quiet single)) ''T1'' = Completed
   \<and> all_tasks_completed (execute_dag quiet single)
   \<and> globals_schema (final_ctx (execute_dag quiet single)) = [(Name ''z'', JList [])]
   \<and> ex_printed (execute_step (run_agent flaky) max_iterations ''T1'' single)
       = [Running_iteration 1, Calling_self 2, Running_iteration 2, Iteration_failed 2 ''down'']
   \<and> status_of (final_ctx (execute_dag flaky single)) ''T1'' = Completed
   \<and> globals_schema (final_ctx (execute_dag flaky single)) = [(Name ''z'', JInt 1)]"
proof -
  have a: "init_context single_plan ''s1'' (JStr ''q'') (JList []) ''t0'' = Inr single"
    by (simp add: init_defs single_plan_def single_def coder_step_def root_attrs_def
        no_attrs_def)
  have b: "ex_result (execute_step (run_agent quiet) max_iterations ''T1'' single)
       = Inr \<lparr> sr_success = True, sr_output = JNull, sr_error = None \<rparr>
     \<and> ex_printed (execute_step (run_agent quiet) max_iterations ''T1'' single)
       = [Running_iteration 1, Iteration_failed 1 ''down'']"
    by (simp add: step_defs iteration_loop.simps single_def coder_step_def root_attrs_def
        no_attrs_def quiet_def)
  have c: "status_of (final_ctx (execute_dag quiet single)) ''T1'' = Completed
     \<and> all_tasks_completed (execute_dag quiet single)
     \<and> globals_schema (final_ctx (execute_dag quiet single)) = [(Name ''z'', JList [])]"
    by (simp add: dag_defs dag_loop.simps step_defs iteration_loop.simps mark_done_defs
        extraction_defs single_def coder_step_def root_attrs_def no_attrs_def quiet_def)
  have d: "ex_printed (execute_step (run_agent flaky) max_iterations ''T1'' single)
       = [Running_iteration 1, Calling_self 2, Running_iteration 2, Iteration_failed 2 ''down'']"
    by (simp add: step_defs iteration_loop.simps single_def coder_step_def root_attrs_def
        no_attrs_def flaky_def flaky_worker_def quiet_def)
  have e: "status_of (final_ctx (execute_dag flaky single)) ''T1'' = Completed
     \<and> globals_schema (final_ctx (execute_dag flaky single)) = [(Name ''z'', JInt 1)]"
    by (simp add: dag_defs dag_loop.simps step_defs iteration_loop.simps mark_done_defs
        extraction_defs single_def coder_step_def root_attrs_def no_attrs_def quiet_def
        flaky_def flaky_worker_def)
  from a b c d e show ?thesis by simp
qed

end
